theory Spec2Isabelle
  imports Main "HOL-Library.Word"
begin

unbundle bit_operations_syntax

section \<open>Byte strings\<close>

text \<open>
  The script \<^verbatim>\<open>tools/embedsrv.py\<close> turns four executables into a Python module that
  holds them as base64 literals. A Python \<^verbatim>\<open>bytes\<close> value is a list of 8-bit
  characters; text (\<^verbatim>\<open>str\<close>) is modelled the same way, every literal of the script
  being ASCII.
\<close>

type_synonym bytes = "char list"
type_synonym u32 = "32 word"

abbreviation DQ :: char where "DQ \<equiv> CHR 0x22"
abbreviation LF :: char where "LF \<equiv> CHR 0x0A"
abbreviation CR :: char where "CR \<equiv> CHR 0x0D"

section \<open>Library functions the script calls\<close>

subsection \<open>Slices\<close>

text \<open>
  \<^verbatim>\<open>xs[start:stop]\<close> with Python's rule for negative and out-of-range bounds: a
  negative bound counts from the end, and both are clamped to the sequence.
\<close>

definition py_bound :: "nat \<Rightarrow> int \<Rightarrow> nat" where
  "py_bound n i = (if i < 0 then nat (max 0 (i + int n)) else min (nat i) n)"

definition py_slice :: "'a list \<Rightarrow> int \<Rightarrow> int \<Rightarrow> 'a list" where
  "py_slice xs start stop =
     (let lo = py_bound (length xs) start; hi = py_bound (length xs) stop
      in take (hi - lo) (drop lo xs))"

subsection \<open>\<^verbatim>\<open>binascii.b2a_base64(data, newline=False)\<close>\<close>

text \<open>
  The base64 alphabet of RFC 4648. Three bytes give four characters; one or two bytes
  left over give two or three characters and \<^verbatim>\<open>=\<close> padding.
\<close>

definition b64_table :: bytes where
  "b64_table = ''ABCDEFGHIJKLMNOPQRSTUVWXYZabcdefghijklmnopqrstuvwxyz0123456789+/''"

definition b64_char :: "nat \<Rightarrow> char" where
  "b64_char i = b64_table ! i"

fun b2a_base64 :: "bytes \<Rightarrow> bytes" where
  "b2a_base64 [] = []"
| "b2a_base64 [a] =
     [b64_char (of_char a div 4), b64_char (of_char a mod 4 * 16), CHR ''='', CHR ''='']"
| "b2a_base64 [a, b] =
     [b64_char (of_char a div 4), b64_char (of_char a mod 4 * 16 + of_char b div 16),
      b64_char (of_char b mod 16 * 4), CHR ''='']"
| "b2a_base64 (a # b # c # rest) =
     [b64_char (of_char a div 4), b64_char (of_char a mod 4 * 16 + of_char b div 16),
      b64_char (of_char b mod 16 * 4 + of_char c div 64), b64_char (of_char c mod 64)]
     @ b2a_base64 rest"

subsection \<open>\<^verbatim>\<open>hashlib.md5(data).hexdigest()\<close>\<close>

text \<open>
  MD5 as RFC 1321 gives it: the message is padded to a multiple of 64 bytes, each block
  of sixteen little-endian 32-bit words goes through 64 steps, and the four state words
  are written little-endian and shown in lowercase hexadecimal.
\<close>

definition md5_K :: "u32 list" where
  "md5_K = [
    0xd76aa478, 0xe8c7b756, 0x242070db, 0xc1bdceee,
    0xf57c0faf, 0x4787c62a, 0xa8304613, 0xfd469501,
    0x698098d8, 0x8b44f7af, 0xffff5bb1, 0x895cd7be,
    0x6b901122, 0xfd987193, 0xa679438e, 0x49b40821,
    0xf61e2562, 0xc040b340, 0x265e5a51, 0xe9b6c7aa,
    0xd62f105d, 0x02441453, 0xd8a1e681, 0xe7d3fbc8,
    0x21e1cde6, 0xc33707d6, 0xf4d50d87, 0x455a14ed,
    0xa9e3e905, 0xfcefa3f8, 0x676f02d9, 0x8d2a4c8a,
    0xfffa3942, 0x8771f681, 0x6d9d6122, 0xfde5380c,
    0xa4beea44, 0x4bdecfa9, 0xf6bb4b60, 0xbebfbc70,
    0x289b7ec6, 0xeaa127fa, 0xd4ef3085, 0x04881d05,
    0xd9d4d039, 0xe6db99e5, 0x1fa27cf8, 0xc4ac5665,
    0xf4292244, 0x432aff97, 0xab9423a7, 0xfc93a039,
    0x655b59c3, 0x8f0ccc92, 0xffeff47d, 0x85845dd1,
    0x6fa87e4f, 0xfe2ce6e0, 0xa3014314, 0x4e0811a1,
    0xf7537e82, 0xbd3af235, 0x2ad7d2bb, 0xeb86d391]"

definition md5_S :: "nat list" where
  "md5_S = [
    7, 12, 17, 22, 7, 12, 17, 22, 7, 12, 17, 22, 7, 12, 17, 22,
    5, 9, 14, 20, 5, 9, 14, 20, 5, 9, 14, 20, 5, 9, 14, 20,
    4, 11, 16, 23, 4, 11, 16, 23, 4, 11, 16, 23, 4, 11, 16, 23,
    6, 10, 15, 21, 6, 10, 15, 21, 6, 10, 15, 21, 6, 10, 15, 21]"

definition rotl32 :: "u32 \<Rightarrow> nat \<Rightarrow> u32" where
  "rotl32 x n = push_bit n x OR drop_bit (32 - n) x"

fun le_word :: "bytes \<Rightarrow> u32" where
  "le_word [] = 0"
| "le_word (b # bs) = of_char b + 256 * le_word bs"

fun le_bytes :: "nat \<Rightarrow> int \<Rightarrow> bytes" where
  "le_bytes 0 v = []"
| "le_bytes (Suc k) v = char_of (v mod 256) # le_bytes k (v div 256)"

fun md5_words :: "nat \<Rightarrow> bytes \<Rightarrow> u32 list" where
  "md5_words 0 bs = []"
| "md5_words (Suc k) bs = le_word (take 4 bs) # md5_words k (drop 4 bs)"

definition md5_pad :: "bytes \<Rightarrow> bytes" where
  "md5_pad m = m @ [char_of (128::nat)] @ replicate ((119 - length m mod 64) mod 64) (char_of (0::nat))
     @ le_bytes 8 ((8 * int (length m)) mod 2 ^ 64)"

type_synonym md5_state = "u32 \<times> u32 \<times> u32 \<times> u32"

fun md5_step :: "u32 list \<Rightarrow> md5_state \<Rightarrow> nat \<Rightarrow> md5_state" where
  "md5_step M (a, b, c, d) i =
     (let (f, g) =
        (if i < 16 then ((b AND c) OR (NOT b AND d), i)
         else if i < 32 then ((d AND b) OR (NOT d AND c), (5 * i + 1) mod 16)
         else if i < 48 then (b XOR c XOR d, (3 * i + 5) mod 16)
         else (c XOR (b OR NOT d), (7 * i) mod 16))
      in (d, b + rotl32 (a + f + md5_K ! i + M ! g) (md5_S ! i), b, c))"

fun md5_block :: "md5_state \<Rightarrow> bytes \<Rightarrow> md5_state" where
  "md5_block (a0, b0, c0, d0) blk =
     (case foldl (md5_step (md5_words 16 blk)) (a0, b0, c0, d0) [0..<64] of
        (a, b, c, d) \<Rightarrow> (a0 + a, b0 + b, c0 + c, d0 + d))"

fun md5_blocks :: "nat \<Rightarrow> md5_state \<Rightarrow> bytes \<Rightarrow> md5_state" where
  "md5_blocks 0 st bs = st"
| "md5_blocks (Suc k) st bs = md5_blocks k (md5_block st (take 64 bs)) (drop 64 bs)"

definition md5_digest :: "bytes \<Rightarrow> bytes" where
  "md5_digest m =
     (let p = md5_pad m in
      case md5_blocks (length p div 64) (0x67452301, 0xefcdab89, 0x98badcfe, 0x10325476) p of
        (a, b, c, d) \<Rightarrow> concat (map (\<lambda>w. le_bytes 4 (uint w)) [a, b, c, d]))"

definition hexdigit :: "nat \<Rightarrow> char" where
  "hexdigit n = ''0123456789abcdef'' ! n"

definition hexlify :: "bytes \<Rightarrow> string" where
  "hexlify bs = concat (map (\<lambda>b. [hexdigit (of_char b div 16), hexdigit (of_char b mod 16)]) bs)"

definition md5_hexdigest :: "bytes \<Rightarrow> string" where
  "md5_hexdigest m = hexlify (md5_digest m)"

section \<open>The encoder\<close>

text \<open>
  The \<^verbatim>\<open>while\<close> loop of \<^verbatim>\<open>bin2python\<close>. \<^verbatim>\<open>columns\<close> is a Python integer, so the
  offset may stay put or move backwards; the loop then never ends, which is the value
  \<open>None\<close> here.
\<close>

partial_function (option) bin2python_loop ::
  "bytes \<Rightarrow> int \<Rightarrow> bytes \<Rightarrow> bytes \<Rightarrow> int \<Rightarrow> bytes \<Rightarrow> bytes option" where
  "bin2python_loop data_b64 columns prefix sep offset pylines =
     (if offset < int (length data_b64) then
        bin2python_loop data_b64 columns prefix sep (offset + columns)
          ((if pylines \<noteq> [] then pylines @ sep else pylines)
           @ prefix @ [CHR ''b'', DQ] @ py_slice data_b64 offset (offset + columns) @ [DQ])
      else Some pylines)"

text \<open>
  \<^verbatim>\<open>bin2python(infile, *, columns=70, prefix=b"    ", sep=b"\n", compress=True)\<close>.
  \<open>infile\<close> is what \<^verbatim>\<open>infile.read()\<close> returns. \<^verbatim>\<open>bz2.compress(data, compresslevel=9)\<close>
  is the library's and is taken as the parameter \<open>bz2_compress\<close>.
\<close>

definition bin2python ::
  "(bytes \<Rightarrow> bytes) \<Rightarrow> bytes \<Rightarrow> int \<Rightarrow> bytes \<Rightarrow> bytes \<Rightarrow> bool \<Rightarrow> (bytes \<times> nat \<times> string) option" where
  "bin2python bz2_compress infile columns prefix sep compress =
     (let data_raw = infile;
          data_size = length data_raw;
          data_md5 = md5_hexdigest data_raw;
          data_raw = (if compress then bz2_compress data_raw else data_raw);
          data_b64 = b2a_base64 data_raw
      in case bin2python_loop data_b64 columns prefix sep 0 [] of
           None \<Rightarrow> None
         | Some pylines \<Rightarrow>
             Some (if pylines = [] then prefix @ [CHR ''b'', DQ, DQ] else pylines,
                   data_size, data_md5))"

definition bin2python_default ::
  "(bytes \<Rightarrow> bytes) \<Rightarrow> bytes \<Rightarrow> (bytes \<times> nat \<times> string) option" where
  \<comment> \<open>\<^verbatim>\<open>bin2python(fin)\<close>: every keyword argument at its default.\<close>
  "bin2python_default bz2_compress infile = bin2python bz2_compress infile 70 ''    '' [LF] True"

section \<open>The world outside the script\<close>

text \<open>
  Paths are POSIX paths and name files literally. A regular file carries whether the
  process may read and write it. What the script cannot compute by itself is collected
  in \<open>env\<close>: its own location, the clock, \<^verbatim>\<open>argparse\<close>, the subprocess runner and
  \<^verbatim>\<open>bz2.compress\<close> at level 9. The messages \<^verbatim>\<open>die\<close> and \<^verbatim>\<open>main\<close> print are not kept.
\<close>

type_synonym path = string

datatype node = Dir | File (readable: bool) (writable: bool) (content: bytes)

type_synonym filesystem = "path \<Rightarrow> node option"

datatype error =
    SystemExit int
  | RuntimeError string
  | IndexError
  | AttributeError string
  | FileNotFoundError path
  | IsADirectoryError path
  | PermissionError path
  | CalledProcessError "string list"

record world =
  fs :: filesystem
  proc_log :: "(string list \<times> path) list"

record env =
  PROJECT_DIR :: path
  script_file :: path
  sys_argv :: "string list"
  utcnow :: string
  argparse :: "string list \<Rightarrow> error + unit"
  subprocess_run :: "string list \<Rightarrow> path \<Rightarrow> error + string \<times> string"
  bz2 :: "bytes \<Rightarrow> bytes"

subsection \<open>\<^verbatim>\<open>os.path\<close>\<close>

definition path_join2 :: "path \<Rightarrow> path \<Rightarrow> path" where
  "path_join2 a b =
     (if b \<noteq> [] \<and> hd b = CHR ''/'' then b
      else if a = [] \<or> last a = CHR ''/'' then a @ b
      else a @ ''/'' @ b)"

definition path_join :: "path \<Rightarrow> path list \<Rightarrow> path" where
  "path_join a ps = foldl path_join2 a ps"

definition rstrip_char :: "char \<Rightarrow> string \<Rightarrow> string" where
  "rstrip_char c s = rev (dropWhile (\<lambda>x. x = c) (rev s))"

definition path_head :: "path \<Rightarrow> path" where
  \<comment> \<open>\<^verbatim>\<open>p[:p.rfind('/') + 1]\<close>\<close>
  "path_head p = rev (dropWhile (\<lambda>x. x \<noteq> CHR ''/'') (rev p))"

definition basename :: "path \<Rightarrow> path" where
  \<comment> \<open>\<^verbatim>\<open>p[p.rfind('/') + 1:]\<close>\<close>
  "basename p = rev (takeWhile (\<lambda>x. x \<noteq> CHR ''/'') (rev p))"

definition dirname :: "path \<Rightarrow> path" where
  "dirname p =
     (let head = path_head p
      in if head \<noteq> [] \<and> head \<noteq> replicate (length head) (CHR ''/'') then rstrip_char (CHR ''/'') head
         else head)"

definition isdir :: "filesystem \<Rightarrow> path \<Rightarrow> bool" where
  "isdir f p = (case f p of Some Dir \<Rightarrow> True | _ \<Rightarrow> False)"

definition isfile :: "filesystem \<Rightarrow> path \<Rightarrow> bool" where
  "isfile f p = (case f p of Some (File r w c) \<Rightarrow> True | _ \<Rightarrow> False)"

subsection \<open>\<^verbatim>\<open>open\<close>, \<^verbatim>\<open>read\<close>, \<^verbatim>\<open>write\<close>\<close>

definition open_rb :: "filesystem \<Rightarrow> path \<Rightarrow> error + bytes" where
  \<comment> \<open>\<^verbatim>\<open>open(p, mode="rb")\<close> followed by \<^verbatim>\<open>read()\<close>\<close>
  "open_rb f p =
     (case f p of
        None \<Rightarrow> Inl (FileNotFoundError p)
      | Some Dir \<Rightarrow> Inl (IsADirectoryError p)
      | Some (File r w c) \<Rightarrow> if r then Inr c else Inl (PermissionError p))"

definition open_wb :: "filesystem \<Rightarrow> path \<Rightarrow> error + filesystem" where
  \<comment> \<open>\<^verbatim>\<open>open(p, mode="wb")\<close> creates the file or truncates it\<close>
  "open_wb f p =
     (case f p of
        None \<Rightarrow> if isdir f (dirname p) then Inr (f(p \<mapsto> File True True [])) else Inl (FileNotFoundError p)
      | Some Dir \<Rightarrow> Inl (IsADirectoryError p)
      | Some (File r w c) \<Rightarrow> if w then Inr (f(p \<mapsto> File r w [])) else Inl (PermissionError p))"

definition write_bytes :: "filesystem \<Rightarrow> path \<Rightarrow> bytes \<Rightarrow> filesystem" where
  \<comment> \<open>\<^verbatim>\<open>fout.write(data)\<close> on the file opened at \<open>p\<close>\<close>
  "write_bytes f p data =
     (case f p of Some (File r w c) \<Rightarrow> f(p \<mapsto> File r w (c @ data)) | _ \<Rightarrow> f)"

subsection \<open>\<^verbatim>\<open>str\<close> methods\<close>

definition isspace :: "char \<Rightarrow> bool" where
  "isspace c =
     (let n = (of_char c :: nat)
      in (9 \<le> n \<and> n \<le> 13) \<or> (28 \<le> n \<and> n \<le> 32) \<or> n = 133 \<or> n = 160)"

definition is_linebreak :: "char \<Rightarrow> bool" where
  "is_linebreak c =
     (let n = (of_char c :: nat)
      in (10 \<le> n \<and> n \<le> 13) \<or> (28 \<le> n \<and> n \<le> 30) \<or> n = 133)"

definition lstrip :: "string \<Rightarrow> string" where
  "lstrip s = dropWhile isspace s"

definition rstrip :: "string \<Rightarrow> string" where
  "rstrip s = rev (dropWhile isspace (rev s))"

fun splitlines_from :: "string \<Rightarrow> string \<Rightarrow> string list" where
  "splitlines_from cur [] = (if cur = [] then [] else [cur])"
| "splitlines_from cur (c # cs) =
     (if c = CR \<and> cs \<noteq> [] \<and> hd cs = LF then cur # splitlines_from [] (tl cs)
      else if is_linebreak c then cur # splitlines_from [] cs
      else splitlines_from (cur @ [c]) cs)"

definition splitlines :: "string \<Rightarrow> string list" where
  "splitlines s = splitlines_from [] s"

definition endswith :: "string \<Rightarrow> string \<Rightarrow> bool" where
  "endswith s suffix = (length suffix \<le> length s \<and> drop (length s - length suffix) s = suffix)"

function str_of_nat :: "nat \<Rightarrow> string" where
  "str_of_nat n =
     (if n < 10 then [char_of (48 + n)] else str_of_nat (n div 10) @ [char_of (48 + n mod 10)])"
  by pat_completeness auto
termination
  by (relation "measure id") auto

declare str_of_nat.simps [simp del]

section \<open>The script\<close>

definition OUTPUT_SCRIPT :: "env \<Rightarrow> path" where
  "OUTPUT_SCRIPT e = path_join (PROJECT_DIR e) [''cli'', ''rpc2socks'', ''embexe_data.py'']"

definition INPUT_FILES :: "env \<Rightarrow> (string \<times> path) list" where
  "INPUT_FILES e =
     [(''EXE32CON'', path_join (PROJECT_DIR e) [''svc'', ''_bin'', ''rpc2socks32con.exe'']),
      (''EXE64CON'', path_join (PROJECT_DIR e) [''svc'', ''_bin'', ''rpc2socks64con.exe'']),
      (''EXE32SVC'', path_join (PROJECT_DIR e) [''svc'', ''_bin'', ''rpc2socks32svc.exe'']),
      (''EXE64SVC'', path_join (PROJECT_DIR e) [''svc'', ''_bin'', ''rpc2socks64svc.exe''])]"

definition die :: "error + 'a" where
  "die = Inl (SystemExit 1)"

record completed_process =
  stdout :: "string list"
  stderr :: "string list"

definition run_and_check_output ::
  "env \<Rightarrow> string list \<Rightarrow> path \<Rightarrow> world \<Rightarrow> (error + completed_process) \<times> world" where
  \<comment> \<open>with \<^verbatim>\<open>splitlines=True, rstrip=True\<close>, as every caller has it\<close>
  "run_and_check_output e cmd_args cwd w =
     (let w' = w\<lparr>proc_log := proc_log w @ [(cmd_args, cwd)]\<rparr>
      in case subprocess_run e cmd_args cwd of
           Inl err \<Rightarrow> (Inl err, w')
         | Inr (out, err) \<Rightarrow>
             (Inr \<lparr>stdout = map rstrip (splitlines out), stderr = map rstrip (splitlines err)\<rparr>, w'))"

record git_info =
  describe :: string
  dirty :: bool
  hash :: string

definition hash_class :: "char \<Rightarrow> bool" where
  \<comment> \<open>the character class \<^verbatim>\<open>[a-h\d]\<close> under \<^verbatim>\<open>re.A\<close>\<close>
  "hash_class c =
     (let n = (of_char c :: nat)
      in (of_char CHR ''a'' \<le> n \<and> n \<le> of_char CHR ''h'') \<or> (of_char CHR ''0'' \<le> n \<and> n \<le> of_char CHR ''9''))"

definition hash_fullmatch :: "string \<Rightarrow> bool" where
  \<comment> \<open>\<^verbatim>\<open>re.fullmatch(r"^([a-h\d]{40})$", s, re.A)\<close>\<close>
  "hash_fullmatch s = (length s = 40 \<and> list_all hash_class s)"

definition first_line :: "string list \<Rightarrow> error + string" where
  \<comment> \<open>\<^verbatim>\<open>stdout[0].lstrip()\<close>\<close>
  "first_line ls = (case ls of [] \<Rightarrow> Inl IndexError | l # _ \<Rightarrow> Inr (lstrip l))"

definition get_git_info ::
  "env \<Rightarrow> path \<Rightarrow> string \<Rightarrow> string \<Rightarrow> string \<Rightarrow> world \<Rightarrow> (error + git_info) \<times> world" where
  "get_git_info e repo_dir commit_ish dirty_suffix git_cmd w =
     (case run_and_check_output e
             [git_cmd, ''describe'', ''--always'', ''--abbrev'', ''--dirty='' @ dirty_suffix] repo_dir w of
        (Inl err, w1) \<Rightarrow> (Inl err, w1)
      | (Inr res, w1) \<Rightarrow>
          (case first_line (stdout res) of
             Inl err \<Rightarrow> (Inl err, w1)
           | Inr d \<Rightarrow>
               (let info = (if endswith d dirty_suffix
                            then \<lparr>describe = py_slice d 0 (- int (length dirty_suffix)), dirty = True, hash = []\<rparr>
                            else \<lparr>describe = d, dirty = False, hash = []\<rparr>)
                in case run_and_check_output e [git_cmd, ''rev-parse'', commit_ish] repo_dir w1 of
                     (Inl err, w2) \<Rightarrow> (Inl err, w2)
                   | (Inr res2, w2) \<Rightarrow>
                       (case first_line (stdout res2) of
                          Inl err \<Rightarrow> (Inl err, w2)
                        | Inr h \<Rightarrow>
                            if \<not> hash_fullmatch h
                            then (Inl (RuntimeError ''malformed git hash from git rev-parse''), w2)
                            else (Inr (info\<lparr>hash := h\<rparr>), w2)))))"

text \<open>
  The \<^verbatim>\<open>types.SimpleNamespace\<close> that the script calls \<^verbatim>\<open>context\<close>. \<^verbatim>\<open>parse_args\<close> sets the
  first three attributes; the other two are absent (\<open>None\<close>) until a later step sets
  them, and reading an absent one raises \<^verbatim>\<open>AttributeError\<close>.
\<close>

record script_context =
  ignoregit :: bool
  repodir :: path
  outfile :: path
  is_git_repo :: "bool option"
  git_info :: "git_info option"

definition check_dirs_and_files :: "env \<Rightarrow> script_context \<Rightarrow> filesystem \<Rightarrow> error + script_context" where
  "check_dirs_and_files e ctx f =
     (if PROJECT_DIR e = [] then die
      else if \<not> isdir f (PROJECT_DIR e) then die
      else
        (case (if ignoregit ctx then Inr (ctx\<lparr>is_git_repo := Some False\<rparr>)
               else if \<not> isdir f (path_join (PROJECT_DIR e) [''.git'']) then die
               else Inr (ctx\<lparr>is_git_repo := Some True\<rparr>)) of
           Inl err \<Rightarrow> Inl err
         | Inr ctx \<Rightarrow>
             if \<not> list_all (\<lambda>file. isfile f file) (map snd (INPUT_FILES e)) then die
             else if \<not> isdir f (dirname (OUTPUT_SCRIPT e)) then die
             else Inr ctx))"

definition artifact_header :: "string \<Rightarrow> path \<Rightarrow> nat \<Rightarrow> string \<Rightarrow> bytes" where
  "artifact_header name infile data_size data_md5 =
     [LF] @ [LF]
     @ ''# '' @ basename infile @ [LF]
     @ name @ ''_SIZE = '' @ str_of_nat data_size @ ''  # uncompressed size'' @ [LF]
     @ name @ ''_MD5 = '' @ [DQ] @ data_md5 @ [DQ] @ ''  # on uncompressed data'' @ [LF]
     @ name @ ''_DATA = (  # compressed with bz2 and encoded in base64'' @ [LF]"

fun write_artifacts ::
  "env \<Rightarrow> path \<Rightarrow> (string \<times> path) list \<Rightarrow> filesystem \<Rightarrow> ((error + unit) \<times> filesystem) option" where
  "write_artifacts e out [] f = Some (Inr (), f)"
| "write_artifacts e out ((name, infile) # rest) f =
     (case open_rb f infile of
        Inl err \<Rightarrow> Some (Inl err, f)
      | Inr fin \<Rightarrow>
          (case bin2python_default (bz2 e) fin of
             None \<Rightarrow> None
           | Some (textified, data_size, data_md5) \<Rightarrow>
               write_artifacts e out rest
                 (write_bytes
                    (write_bytes
                       (write_bytes f out (artifact_header name infile data_size data_md5))
                       out textified)
                    out ('')'' @ [LF]))))"

definition document_header :: "env \<Rightarrow> string \<Rightarrow> bytes" where
  "document_header e git_commit =
     ''# Copyright (c) Lexfo'' @ [LF]
     @ ''# SPDX-License-Identifier: BSD-3-Clause'' @ [LF]
     @ ''#'' @ [LF]
     @ ''# auto-generated by '' @ basename (script_file e) @ [LF]
     @ ''#'' @ [LF]
     @ [LF]
     @ ''GENERATED_AT = '' @ [DQ] @ utcnow e @ [DQ] @ [LF]
     @ ''GIT_COMMIT = '' @ git_commit @ [LF]"

definition generate_python_script ::
  "env \<Rightarrow> script_context \<Rightarrow> filesystem \<Rightarrow> ((error + unit) \<times> filesystem) option" where
  "generate_python_script e ctx f =
     (case is_git_repo ctx of
        None \<Rightarrow> Some (Inl (AttributeError ''is_git_repo''), f)
      | Some is_repo \<Rightarrow>
          (case (if \<not> is_repo then Inr ''None''
                 else case git_info ctx of
                        None \<Rightarrow> Inl (AttributeError ''git_info'')
                      | Some info \<Rightarrow> Inr ([DQ] @ hash info @ [DQ] @ ''  # CAUTION: repo possibly dirty'')) of
             Inl err \<Rightarrow> Some (Inl err, f)
           | Inr git_commit \<Rightarrow>
               (case open_wb f (outfile ctx) of
                  Inl err \<Rightarrow> Some (Inl err, f)
                | Inr f1 \<Rightarrow>
                    write_artifacts e (outfile ctx) (INPUT_FILES e)
                      (write_bytes f1 (outfile ctx) (document_header e git_commit)))))"

definition parse_args :: "env \<Rightarrow> string list \<Rightarrow> error + script_context" where
  "parse_args e args =
     (case argparse e args of
        Inl err \<Rightarrow> Inl err
      | Inr opts \<Rightarrow>
          Inr \<lparr>ignoregit = True, repodir = PROJECT_DIR e, outfile = OUTPUT_SCRIPT e,
               is_git_repo = None, git_info = None\<rparr>)"

definition main :: "env \<Rightarrow> string list option \<Rightarrow> world \<Rightarrow> ((error + int) \<times> world) option" where
  "main e args w =
     (let args = (case args of None \<Rightarrow> drop 1 (sys_argv e) | Some a \<Rightarrow> a)
      in case parse_args e args of
           Inl err \<Rightarrow> Some (Inl err, w)
         | Inr ctx \<Rightarrow>
             (case check_dirs_and_files e ctx (fs w) of
                Inl err \<Rightarrow> Some (Inl err, w)
              | Inr ctx \<Rightarrow>
                  (case (case is_git_repo ctx of
                           None \<Rightarrow> (Inl (AttributeError ''is_git_repo''), w)
                         | Some False \<Rightarrow> (Inr ctx, w)
                         | Some True \<Rightarrow>
                             (case get_git_info e (repodir ctx) ''HEAD'' ''-dirty'' ''git'' w of
                                (Inl err, w1) \<Rightarrow> (Inl err, w1)
                              | (Inr info, w1) \<Rightarrow> (Inr (ctx\<lparr>git_info := Some info\<rparr>), w1))) of
                     (Inl err, w1) \<Rightarrow> Some (Inl err, w1)
                   | (Inr ctx, w1) \<Rightarrow>
                       (case generate_python_script e ctx (fs w1) of
                          None \<Rightarrow> None
                        | Some (Inl err, f) \<Rightarrow> Some (Inl err, w1\<lparr>fs := f\<rparr>)
                        | Some (Inr u, f) \<Rightarrow> Some (Inr 0, w1\<lparr>fs := f\<rparr>)))))"

section \<open>What the claims are stated with\<close>

subsection \<open>Framing, as the specification words it\<close>

text \<open>
  The specification speaks of segments of \<open>column_width\<close> characters, each wrapped in
  a literal and prefixed, the lines joined by the separator. These definitions follow
  those words; the theorems below compare them with the loop of \<open>bin2python\<close>.
\<close>

function chunks :: "nat \<Rightarrow> 'a list \<Rightarrow> 'a list list" where
  "chunks n xs = (if n = 0 \<or> xs = [] then [] else take n xs # chunks n (drop n xs))"
  by pat_completeness auto
termination
  by (relation "measure (\<lambda>(n, xs). length xs)") auto

declare chunks.simps [simp del]

definition frame_line :: "bytes \<Rightarrow> bytes \<Rightarrow> bytes" where
  "frame_line prefix seg = prefix @ [CHR ''b'', DQ] @ seg @ [DQ]"

fun join_bytes :: "bytes \<Rightarrow> bytes list \<Rightarrow> bytes" where
  "join_bytes sep [] = []"
| "join_bytes sep [l] = l"
| "join_bytes sep (l # m # ls) = l @ sep @ join_bytes sep (m # ls)"

text \<open>One pass of the loop body, as a function of the lines so far and the next segment.\<close>

definition add_line :: "bytes \<Rightarrow> bytes \<Rightarrow> bytes \<Rightarrow> bytes \<Rightarrow> bytes" where
  "add_line prefix sep pylines seg = (if pylines \<noteq> [] then pylines @ sep else pylines) @ frame_line prefix seg"

subsection \<open>Reading a framed body back\<close>

text \<open>
  A consumer strips the prefix and the \<^verbatim>\<open>b"\<close> of each line, takes the text up to the
  closing quote, skips the separator, and decodes the concatenated text: base64 first,
  then bz2 when the body was compressed. \<^verbatim>\<open>bz2.decompress\<close> is a parameter as
  \<^verbatim>\<open>bz2.compress\<close> is.
\<close>

fun index_of :: "'a \<Rightarrow> 'a list \<Rightarrow> nat option" where
  "index_of c [] = None"
| "index_of c (x # xs) = (if c = x then Some 0 else map_option Suc (index_of c xs))"

definition b64_index :: "char \<Rightarrow> nat option" where
  "b64_index c = index_of c b64_table"

fun a2b_base64 :: "bytes \<Rightarrow> bytes option" where
  "a2b_base64 [] = Some []"
| "a2b_base64 (c1 # c2 # c3 # c4 # rest) =
     (case (b64_index c1, b64_index c2) of
        (Some i1, Some i2) \<Rightarrow>
          if c3 = CHR ''='' \<and> c4 = CHR ''='' \<and> rest = [] then
            Some [char_of (i1 * 4 + i2 div 16)]
          else
            (case b64_index c3 of
               None \<Rightarrow> None
             | Some i3 \<Rightarrow>
                 if c4 = CHR ''='' \<and> rest = [] then
                   Some [char_of (i1 * 4 + i2 div 16), char_of (i2 mod 16 * 16 + i3 div 4)]
                 else
                   (case b64_index c4 of
                      None \<Rightarrow> None
                    | Some i4 \<Rightarrow>
                        map_option
                          ((@) [char_of (i1 * 4 + i2 div 16), char_of (i2 mod 16 * 16 + i3 div 4),
                                char_of (i3 mod 4 * 64 + i4)])
                          (a2b_base64 rest)))
      | _ \<Rightarrow> None)"
| "a2b_base64 _ = None"

definition strip_prefix :: "bytes \<Rightarrow> bytes \<Rightarrow> bytes option" where
  "strip_prefix p xs = (if take (length p) xs = p then Some (drop (length p) xs) else None)"

function unframe :: "bytes \<Rightarrow> bytes \<Rightarrow> bytes \<Rightarrow> bytes option" where
  "unframe prefix sep body =
     (case strip_prefix (prefix @ [CHR ''b'', DQ]) body of
        None \<Rightarrow> None
      | Some r \<Rightarrow>
          (case dropWhile (\<lambda>c. c \<noteq> DQ) r of
             [] \<Rightarrow> None
           | q # r' \<Rightarrow>
               if r' = [] then Some (takeWhile (\<lambda>c. c \<noteq> DQ) r)
               else
                 (case strip_prefix sep r' of
                    None \<Rightarrow> None
                  | Some r'' \<Rightarrow>
                      map_option ((@) (takeWhile (\<lambda>c. c \<noteq> DQ) r)) (unframe prefix sep r''))))"
  by pat_completeness auto
termination
proof (relation "measure (\<lambda>(prefix, sep, body). length body)")
  show "wf (measure (\<lambda>(prefix, sep, body). length body))"
    by simp
next
  fix prefix sep body :: bytes and r q r' r''
  assume r: "strip_prefix (prefix @ [CHR ''b'', DQ]) body = Some r"
    and d: "dropWhile (\<lambda>c. c \<noteq> DQ) r = q # r'"
    and s: "strip_prefix sep r' = Some r''"
  from r have "length r + 2 \<le> length body"
    by (auto simp: strip_prefix_def split: if_splits dest: arg_cong [where f = length])
  moreover have "length (q # r') \<le> length r"
    using length_dropWhile_le [of "\<lambda>c. c \<noteq> DQ" r] by (simp only: d)
  moreover from s have "length r'' \<le> length r'"
    by (auto simp: strip_prefix_def split: if_splits)
  ultimately show "((prefix, sep, r''), (prefix, sep, body)) \<in> measure (\<lambda>(prefix, sep, body). length body)"
    by simp
qed

declare unframe.simps [simp del]

definition decode_body :: "(bytes \<Rightarrow> bytes option) \<Rightarrow> bytes \<Rightarrow> bytes \<Rightarrow> bool \<Rightarrow> bytes \<Rightarrow> bytes option" where
  "decode_body bz2_decompress prefix sep compress body =
     (case unframe prefix sep body of
        None \<Rightarrow> None
      | Some data_b64 \<Rightarrow>
          (case a2b_base64 data_b64 of
             None \<Rightarrow> None
           | Some data \<Rightarrow> if compress then bz2_decompress data else Some data))"

subsection \<open>Concrete compressors for the examples\<close>

text \<open>
  A run-length codec stands where a concrete lossless compressor is needed. The bzip2
  stream of the empty input is fixed by the format: the header \<^verbatim>\<open>BZh9\<close>, the
  end-of-stream marker \<^verbatim>\<open>0x177245385090\<close> and the combined CRC 0; \<open>bz2_compress_nil\<close>
  is \<^verbatim>\<open>bz2.compress\<close> at that one input.
\<close>

fun rle_compress :: "bytes \<Rightarrow> bytes" where
  "rle_compress [] = []"
| "rle_compress (x # xs) =
     (case rle_compress xs of
        n # y # rest \<Rightarrow>
          if y = x \<and> of_char n < (255::nat) then char_of (of_char n + 1 :: nat) # y # rest
          else CHR 0x01 # x # n # y # rest
      | _ \<Rightarrow> [CHR 0x01, x])"

fun rle_decompress :: "bytes \<Rightarrow> bytes option" where
  "rle_decompress [] = Some []"
| "rle_decompress [n] = None"
| "rle_decompress (n # x # rest) = map_option ((@) (replicate (of_char n) x)) (rle_decompress rest)"

definition bz2_empty_stream :: bytes where
  "bz2_empty_stream =
     [CHR ''B'', CHR ''Z'', CHR ''h'', CHR ''9'', CHR 0x17, CHR 0x72, CHR 0x45, CHR 0x38, CHR 0x50,
      CHR 0x90, CHR 0x00, CHR 0x00, CHR 0x00, CHR 0x00]"

definition bz2_compress_nil :: "bytes \<Rightarrow> bytes" where
  "bz2_compress_nil data = (if data = [] then bz2_empty_stream else undefined)"


subsection \<open>Observing a run\<close>

text \<open>
  The bytes of a regular file, the argument list \<open>main\<close> parses, how a run ended and what
  the output path holds afterwards. \<open>preamble\<close> is the part of the document before the
  revision line.
\<close>

definition file_content :: "filesystem \<Rightarrow> path \<Rightarrow> bytes option" where
  "file_content f p = (case f p of Some (File r w c) \<Rightarrow> Some c | _ \<Rightarrow> None)"

definition main_args :: "env \<Rightarrow> string list option \<Rightarrow> string list" where
  "main_args e args = (case args of None \<Rightarrow> drop 1 (sys_argv e) | Some a \<Rightarrow> a)"

definition main_status :: "env \<Rightarrow> string list option \<Rightarrow> world \<Rightarrow> (error + int) option" where
  "main_status e args w = map_option fst (main e args w)"

definition main_output :: "env \<Rightarrow> string list option \<Rightarrow> world \<Rightarrow> bytes option" where
  "main_output e args w =
     (case main e args w of None \<Rightarrow> None | Some (res, w') \<Rightarrow> file_content (fs w') (OUTPUT_SCRIPT e))"

definition preamble :: "env \<Rightarrow> bytes" where
  "preamble e =
     ''# Copyright (c) Lexfo'' @ [LF]
     @ ''# SPDX-License-Identifier: BSD-3-Clause'' @ [LF]
     @ ''#'' @ [LF]
     @ ''# auto-generated by '' @ basename (script_file e) @ [LF]
     @ ''#'' @ [LF]
     @ [LF]
     @ ''GENERATED_AT = '' @ [DQ] @ utcnow e @ [DQ] @ [LF]"

subsection \<open>A concrete world for the examples\<close>

text \<open>
  A project directory \<^verbatim>\<open>/w\<close> that is a git repository, with three of the four inputs
  present; the third input and the output file are parameters. \<open>git_answers\<close> is a git
  that prints the given texts for \<^verbatim>\<open>describe\<close> and \<^verbatim>\<open>rev-parse\<close>.
\<close>

definition example_argparse :: "string list \<Rightarrow> error + unit" where
  "example_argparse args =
     (if args = [] then Inr ()
      else if List.member args ''-h'' \<or> List.member args ''--help'' then Inl (SystemExit 0)
      else Inl (SystemExit 2))"

definition git_answers :: "string \<Rightarrow> string \<Rightarrow> string list \<Rightarrow> path \<Rightarrow> error + string \<times> string" where
  "git_answers described revision cmd cwd =
     (if take 1 (drop 1 cmd) = [''describe''] then Inr (described, [])
      else if take 1 (drop 1 cmd) = [''rev-parse''] then Inr (revision, [])
      else Inl (CalledProcessError cmd))"

definition line_out :: "string \<Rightarrow> string" where
  "line_out s = s @ [LF]"

definition example_env :: "(string list \<Rightarrow> path \<Rightarrow> error + string \<times> string) \<Rightarrow> env" where
  "example_env run =
     \<lparr>PROJECT_DIR = ''/w'', script_file = ''/w/tools/embedsrv.py'', sys_argv = [''embedsrv.py''],
      utcnow = ''2020-09-01T12:00:00+00:00'', argparse = example_argparse,
      subprocess_run = run, bz2 = rle_compress\<rparr>"

definition example_fs :: "node option \<Rightarrow> node option \<Rightarrow> filesystem" where
  "example_fs third out =
     (map_of
        [(''/w'', Dir), (''/w/.git'', Dir), (''/w/cli/rpc2socks'', Dir),
         (''/w/svc/_bin/rpc2socks32con.exe'', File True True ''AB''),
         (''/w/svc/_bin/rpc2socks64con.exe'', File True True ''AAB''),
         (''/w/svc/_bin/rpc2socks64svc.exe'', File True True [])])
     (''/w/svc/_bin/rpc2socks32svc.exe'' := third, ''/w/cli/rpc2socks/embexe_data.py'' := out)"

definition example_world :: "node option \<Rightarrow> node option \<Rightarrow> world" where
  "example_world third out = \<lparr>fs = example_fs third out, proc_log = []\<rparr>"

abbreviation (input) ctx_checked :: script_context where
  "ctx_checked \<equiv> \<lparr>ignoregit = True, repodir = ''/w'', outfile = ''/w/cli/rpc2socks/embexe_data.py'',
          is_git_repo = Some False, git_info = None\<rparr>"

definition hex40 :: string where
  "hex40 = ''0123456789abcdef0123456789abcdef01234567''"

definition g40 :: string where
  "g40 = ''gggggggggggggggggggggggggggggggggggggggg''"


section \<open>The encoder: lemmas\<close>

lemma py_slice_chunk:
  assumes "off < length xs" and "0 < c"
  shows "py_slice xs (int off) (int off + c) = take (nat c) (drop off xs)"
proof -
  have lo: "py_bound (length xs) (int off) = off"
    using assms by (simp add: py_bound_def)
  have hi: "py_bound (length xs) (int off + c) = min (off + nat c) (length xs)"
    using assms by (simp add: py_bound_def nat_add_distrib)
  have "take (min (off + nat c) (length xs) - off) (drop off xs) = take (nat c) (drop off xs)"
    using assms by (simp add: min_def)
  then show ?thesis
    by (simp add: py_slice_def lo hi)
qed

lemma bin2python_loop_foldl:
  assumes "0 < columns"
  shows "bin2python_loop data_b64 columns prefix sep (int off) pylines =
           Some (foldl (add_line prefix sep) pylines (chunks (nat columns) (drop off data_b64)))"
proof (induction "length data_b64 - off" arbitrary: off pylines rule: less_induct)
  case less
  show ?case
  proof (cases "off < length data_b64")
    case False
    then show ?thesis
      by (subst bin2python_loop.simps) (simp add: chunks.simps)
  next
    case True
    have step: "int off + columns = int (off + nat columns)"
      using assms by simp
    have smaller: "length data_b64 - (off + nat columns) < length data_b64 - off"
      using True assms by simp
    have ch: "chunks (nat columns) (drop off data_b64) =
                take (nat columns) (drop off data_b64)
                # chunks (nat columns) (drop (off + nat columns) data_b64)"
      using True assms by (subst chunks.simps) (simp add: add.commute)
    show ?thesis
      apply (subst bin2python_loop.simps)
      using True
      apply (simp only: if_True of_nat_less_iff step less.hyps [OF smaller] py_slice_chunk [OF True assms, unfolded step])
      apply (simp add: ch add_line_def frame_line_def)
      done
  qed
qed

lemma add_line_nonempty: "add_line prefix sep pylines seg \<noteq> []"
  by (simp add: add_line_def frame_line_def)

lemma add_line_first: "add_line prefix sep [] seg = frame_line prefix seg"
  by (simp add: add_line_def)

lemma add_line_next: "acc \<noteq> [] \<Longrightarrow> add_line prefix sep acc seg = acc @ sep @ frame_line prefix seg"
  by (simp add: add_line_def)

lemma foldl_add_line_cons:
  "acc \<noteq> [] \<Longrightarrow> foldl (add_line prefix sep) acc segs =
     acc @ concat (map (\<lambda>seg. sep @ frame_line prefix seg) segs)"
proof (induction segs arbitrary: acc)
  case Nil
  then show ?case by simp
next
  case (Cons seg segs)
  have "foldl (add_line prefix sep) (add_line prefix sep acc seg) segs =
          add_line prefix sep acc seg @ concat (map (\<lambda>seg. sep @ frame_line prefix seg) segs)"
    by (rule Cons.IH) (rule add_line_nonempty)
  with Cons.prems show ?case
    by (simp add: add_line_next)
qed

lemma join_bytes_cons:
  "join_bytes sep (l # ls) = l @ concat (map (\<lambda>m. sep @ m) ls)"
  by (induction ls arbitrary: l) auto

lemma foldl_add_line_join:
  "foldl (add_line prefix sep) [] segs = join_bytes sep (map (frame_line prefix) segs)"
proof (cases segs)
  case Nil
  then show ?thesis by simp
next
  case (Cons seg rest)
  have "foldl (add_line prefix sep) (add_line prefix sep [] seg) rest =
          add_line prefix sep [] seg @ concat (map (\<lambda>seg. sep @ frame_line prefix seg) rest)"
    by (rule foldl_add_line_cons) (rule add_line_nonempty)
  then show ?thesis
    by (simp add: Cons join_bytes_cons add_line_first comp_def)
qed

lemma chunks_Nil [simp]: "chunks n [] = []"
  by (simp add: chunks.simps)

lemma chunks_eq_Nil: "0 < n \<Longrightarrow> chunks n xs = [] \<longleftrightarrow> xs = []"
  by (subst chunks.simps) simp

lemma concat_chunks: "0 < n \<Longrightarrow> concat (chunks n xs) = xs"
proof (induction n xs rule: chunks.induct)
  case (1 n xs)
  then show ?case
    by (subst chunks.simps) auto
qed

lemma chunks_lengths:
  "seg \<in> set (chunks n xs) \<Longrightarrow> 0 < length seg \<and> length seg \<le> n"
proof (induction n xs rule: chunks.induct)
  case (1 n xs)
  from "1.prems" have "seg \<in> set (if n = 0 \<or> xs = [] then [] else take n xs # chunks n (drop n xs))"
    by (subst (asm) chunks.simps)
  then have ne: "\<not> (n = 0 \<or> xs = [])"
    by (auto split: if_splits)
  with "1.prems" have "seg = take n xs \<or> seg \<in> set (chunks n (drop n xs))"
    by (subst (asm) chunks.simps) auto
  then show ?case
    using ne "1.IH" by auto
qed

lemma chunks_butlast_full:
  "seg \<in> set (butlast (chunks n xs)) \<Longrightarrow> length seg = n"
proof (induction n xs rule: chunks.induct)
  case (1 n xs)
  have "chunks n xs \<noteq> []"
    using "1.prems" by auto
  then have ne: "\<not> (n = 0 \<or> xs = [])"
    by (subst (asm) chunks.simps) (auto split: if_splits)
  then have ch: "chunks n xs = take n xs # chunks n (drop n xs)"
    by (subst chunks.simps) simp
  show ?case
  proof (cases "chunks n (drop n xs) = []")
    case True
    with "1.prems" ch show ?thesis by simp
  next
    case False
    then have "drop n xs \<noteq> []" by auto
    then have full: "length (take n xs) = n" by simp
    from "1.prems" ch False
    have "seg = take n xs \<or> seg \<in> set (butlast (chunks n (drop n xs)))"
      by simp
    then show ?thesis
      using full "1.IH" [OF ne] by auto
  qed
qed

lemma index_of_nth: "distinct xs \<Longrightarrow> i < length xs \<Longrightarrow> index_of (xs ! i) xs = Some i"
proof (induction xs arbitrary: i)
  case Nil
  then show ?case by simp
next
  case (Cons x xs)
  show ?case
  proof (cases i)
    case 0
    then show ?thesis by simp
  next
    case (Suc j)
    with Cons.prems have "xs ! j \<noteq> x" and "index_of (xs ! j) xs = Some j"
      using Cons.IH [of j] by auto
    with Suc show ?thesis by simp
  qed
qed

lemma length_b64_table: "length b64_table = 64"
  by (simp add: b64_table_def)

lemma distinct_b64_table: "distinct b64_table"
  by (simp add: b64_table_def)

lemma b64_index_char: "i < 64 \<Longrightarrow> b64_index (b64_char i) = Some i"
  unfolding b64_index_def b64_char_def
  by (rule index_of_nth) (simp_all add: distinct_b64_table length_b64_table)

lemma b64_char_in_table: "i < 64 \<Longrightarrow> b64_char i \<in> set b64_table"
  by (simp add: b64_char_def length_b64_table)

lemma b64_char_not_pad: "i < 64 \<Longrightarrow> b64_char i \<noteq> CHR ''=''"
proof -
  assume "i < 64"
  then have "b64_char i \<in> set b64_table" by (rule b64_char_in_table)
  moreover have "CHR ''='' \<notin> set b64_table" by (simp add: b64_table_def)
  ultimately show ?thesis by auto
qed

lemma div_bound: "x < 256 \<Longrightarrow> x div 4 < (64::nat)" "x < 256 \<Longrightarrow> x div 16 < (16::nat)"
  "x < 256 \<Longrightarrow> x div 64 < (4::nat)"
  by (rule less_mult_imp_div_less, simp)+

lemma sextet_bounds:
  fixes a b c :: char
  shows "of_char a div 4 < (64::nat)"
    and "of_char a mod 4 * 16 < (64::nat)"
    and "of_char a mod 4 * 16 + of_char b div 16 < (64::nat)"
    and "of_char b mod 16 * 4 < (64::nat)"
    and "of_char b mod 16 * 4 + of_char c div 64 < (64::nat)"
    and "of_char c mod 64 < (64::nat)"
proof -
  have b: "of_char b div 16 < (16::nat)" and c: "of_char c div 64 < (4::nat)"
    by (simp_all add: div_bound)
  have a4: "of_char a mod 4 < (4::nat)" and b16: "of_char b mod 16 < (16::nat)"
    by simp_all
  show "of_char a div 4 < (64::nat)" by (simp add: div_bound)
  show "of_char a mod 4 * 16 < (64::nat)" using a4 by linarith
  show "of_char a mod 4 * 16 + of_char b div 16 < (64::nat)" using a4 b by linarith
  show "of_char b mod 16 * 4 < (64::nat)" using b16 by linarith
  show "of_char b mod 16 * 4 + of_char c div 64 < (64::nat)" using b16 c by linarith
  show "of_char c mod 64 < (64::nat)" by simp
qed

lemma octet_1:
  "char_of (of_char a div 4 * 4 + (of_char a mod 4 * 16 + n) div 16 :: nat) = a" if "n < 16"
proof -
  have "(of_char a mod 4 * 16 + n) div 16 = (of_char a mod 4 :: nat)"
    using that by simp
  then have "of_char a div 4 * 4 + (of_char a mod 4 * 16 + n) div 16 = (of_char a :: nat)"
    by simp
  then show ?thesis by simp
qed

lemma octet_2:
  "char_of ((of_char a mod 4 * 16 + of_char b div 16) mod 16 * 16
            + (of_char b mod 16 * 4 + n) div 4 :: nat) = b" if "n < 4"
proof -
  have "(of_char a mod 4 * 16 + of_char b div 16) mod 16 = (of_char b div 16 :: nat)"
    by (simp add: div_bound)
  moreover have "(of_char b mod 16 * 4 + n) div 4 = (of_char b mod 16 :: nat)"
    using that by simp
  ultimately have "(of_char a mod 4 * 16 + of_char b div 16) mod 16 * 16
                     + (of_char b mod 16 * 4 + n) div 4 = (of_char b :: nat)"
    by simp
  then show ?thesis by simp
qed

lemma octet_3:
  "char_of ((of_char b mod 16 * 4 + of_char c div 64) mod 4 * 64 + of_char c mod 64 :: nat) = c"
proof -
  have "(of_char b mod 16 * 4 + of_char c div 64) mod 4 = (of_char c div 64 :: nat)"
    by (simp add: div_bound)
  then have "(of_char b mod 16 * 4 + of_char c div 64) mod 4 * 64 + of_char c mod 64
               = (of_char c :: nat)"
    by simp
  then show ?thesis by simp
qed

lemma a2b_b2a_base64: "a2b_base64 (b2a_base64 xs) = Some xs"
proof (induction xs rule: b2a_base64.induct)
  case 1
  show ?case by simp
next
  case (2 a)
  show ?case
    using octet_1 [of 0 a]
    by (simp add: b64_index_char sextet_bounds)
next
  case (3 a b)
  have "of_char b div 16 < (16::nat)" by (simp add: div_bound)
  then show ?case
    using octet_1 [of "of_char b div 16" a] octet_2 [of 0 a b]
    by (simp add: b64_index_char sextet_bounds b64_char_not_pad)
next
  case (4 a b c rest)
  have "of_char b div 16 < (16::nat)" "of_char c div 64 < (4::nat)" by (simp_all add: div_bound)
  then show ?case
    using octet_1 [of "of_char b div 16" a] octet_2 [of "of_char c div 64" a b] octet_3 [of b c] "4.IH"
    by (simp add: b64_index_char sextet_bounds b64_char_not_pad)
qed

lemma set_b2a_base64: "set (b2a_base64 xs) \<subseteq> set b64_table \<union> {CHR ''=''}"
  by (induction xs rule: b2a_base64.induct) (simp_all add: b64_char_in_table sextet_bounds)

lemma b2a_base64_eq_Nil: "b2a_base64 xs = [] \<longleftrightarrow> xs = []"
  by (cases xs rule: b2a_base64.cases) simp_all

lemma b2a_base64_no_quote: "DQ \<notin> set (b2a_base64 xs)"
proof -
  have "DQ \<notin> set b64_table \<union> {CHR ''=''}" by (simp add: b64_table_def)
  then show ?thesis using set_b2a_base64 [of xs] by blast
qed

lemma b2a_base64_no_newline: "LF \<notin> set (b2a_base64 xs) \<and> CR \<notin> set (b2a_base64 xs)"
proof -
  have "LF \<notin> set b64_table \<union> {CHR ''=''}" "CR \<notin> set b64_table \<union> {CHR ''=''}"
    by (simp_all add: b64_table_def)
  then show ?thesis using set_b2a_base64 [of xs] by blast
qed

lemma strip_prefix_append: "strip_prefix p (p @ r) = Some r"
  by (simp add: strip_prefix_def)

lemma frame_line_nonempty: "frame_line prefix seg \<noteq> []"
  by (simp add: frame_line_def)

lemma join_bytes_nonempty: "ls \<noteq> [] \<Longrightarrow> join_bytes sep (map (frame_line prefix) ls) \<noteq> []"
  by (cases ls) (simp_all add: join_bytes_cons frame_line_nonempty)

lemma split_at_quote:
  "DQ \<notin> set seg \<Longrightarrow>
     takeWhile (\<lambda>c. c \<noteq> DQ) (seg @ DQ # r) = seg \<and> dropWhile (\<lambda>c. c \<noteq> DQ) (seg @ DQ # r) = DQ # r"
  by (induction seg) auto

lemma unframe_line_last:
  assumes "DQ \<notin> set seg"
  shows "unframe prefix sep (frame_line prefix seg) = Some seg"
proof -
  have "frame_line prefix seg = (prefix @ [CHR ''b'', DQ]) @ (seg @ [DQ])"
    by (simp add: frame_line_def)
  then have "strip_prefix (prefix @ [CHR ''b'', DQ]) (frame_line prefix seg) = Some (seg @ [DQ])"
    by (simp only: strip_prefix_append)
  moreover have "dropWhile (\<lambda>c. c \<noteq> DQ) (seg @ [DQ]) = [DQ]"
    and "takeWhile (\<lambda>c. c \<noteq> DQ) (seg @ [DQ]) = seg"
    using split_at_quote [OF assms, of "[]"] by simp_all
  ultimately show ?thesis
    by (subst unframe.simps) simp
qed

lemma unframe_line_more:
  assumes "DQ \<notin> set seg" and "rest \<noteq> []"
  shows "unframe prefix sep (frame_line prefix seg @ sep @ rest) =
           map_option ((@) seg) (unframe prefix sep rest)"
proof -
  have "frame_line prefix seg @ sep @ rest = (prefix @ [CHR ''b'', DQ]) @ (seg @ DQ # sep @ rest)"
    by (simp add: frame_line_def)
  then have "strip_prefix (prefix @ [CHR ''b'', DQ]) (frame_line prefix seg @ sep @ rest)
               = Some (seg @ DQ # sep @ rest)"
    by (simp only: strip_prefix_append)
  moreover have "dropWhile (\<lambda>c. c \<noteq> DQ) (seg @ DQ # sep @ rest) = DQ # sep @ rest"
    and "takeWhile (\<lambda>c. c \<noteq> DQ) (seg @ DQ # sep @ rest) = seg"
    using split_at_quote [OF assms(1), of "sep @ rest"] by simp_all
  ultimately show ?thesis
    using assms(2) by (subst unframe.simps) (simp add: strip_prefix_append)
qed

lemma unframe_join:
  assumes "segs \<noteq> []" and "\<forall>seg\<in>set segs. DQ \<notin> set seg"
  shows "unframe prefix sep (join_bytes sep (map (frame_line prefix) segs)) = Some (concat segs)"
  using assms
proof (induction segs rule: induct_list012)
  case 1
  then show ?case by simp
next
  case (2 seg)
  then show ?case by (simp add: unframe_line_last)
next
  case (3 seg m rest)
  have ne: "join_bytes sep (map (frame_line prefix) (m # rest)) \<noteq> []"
    by (rule join_bytes_nonempty) simp
  have "unframe prefix sep (join_bytes sep (map (frame_line prefix) (m # rest))) = Some (concat (m # rest))"
    using 3 by simp
  then show ?case
    using 3(4) unframe_line_more [OF _ ne, of seg prefix sep] by simp
qed

lemma bin2python_eq:
  assumes "0 < columns"
  shows "bin2python bz2_compress infile columns prefix sep compress =
           Some (let data_b64 = b2a_base64 (if compress then bz2_compress infile else infile)
                 in if data_b64 = [] then frame_line prefix []
                    else join_bytes sep (map (frame_line prefix) (chunks (nat columns) data_b64)),
                 length infile, md5_hexdigest infile)"
proof -
  define data_b64 where "data_b64 = b2a_base64 (if compress then bz2_compress infile else infile)"
  have loop: "bin2python_loop data_b64 columns prefix sep 0 [] =
                Some (join_bytes sep (map (frame_line prefix) (chunks (nat columns) data_b64)))"
    using bin2python_loop_foldl [OF assms, of data_b64 prefix sep 0 "[]"]
    by (simp add: foldl_add_line_join)
  have empty: "join_bytes sep (map (frame_line prefix) (chunks (nat columns) data_b64)) = []
                 \<longleftrightarrow> data_b64 = []"
    using assms join_bytes_nonempty [of "chunks (nat columns) data_b64" sep prefix]
    by (auto simp: chunks_eq_Nil)
  show ?thesis
    unfolding bin2python_def Let_def data_b64_def [symmetric]
    by (simp add: loop empty frame_line_def)
qed

lemma rle_AAB: "rle_compress ''AAB'' = [CHR 0x02, CHR ''A'', CHR 0x01, CHR ''B'']"
  by code_simp

lemma rle_AAB_inv: "rle_decompress (rle_compress ''AAB'') = Some ''AAB''"
  by code_simp

lemma b64_rle_AAB: "b2a_base64 (rle_compress ''AAB'') = ''AkEBQg==''"
  by code_simp

lemma md5_hexdigest_AB: "md5_hexdigest ''AB'' = ''b86fc6b051f63d73de262d4c34e3a0a9''"
  by code_simp

lemma b64_AB: "b2a_base64 ''AB'' = ''QUI=''"
  by code_simp

lemma b64_bz2_empty: "b2a_base64 bz2_empty_stream = ''QlpoORdyRThQkAAAAAA=''"
  by code_simp

lemma chunks_4_8: "chunks 4 [a,b,c,d,e,f,g,h] = [[a,b,c,d],[e,f,g,h]]"
  by (simp add: chunks.simps)

lemma chunks_single: "xs \<noteq> [] \<Longrightarrow> length xs \<le> n \<Longrightarrow> chunks n xs = [xs]"
  by (subst chunks.simps) (cases n; auto)

text \<open>
  Claim C2. Whenever \<open>columns\<close> is positive, \<open>bin2python\<close> returns, and the size it
  returns is the length of the input and the checksum is the MD5 hex digest of the input
  as read, before compression. Neither depends on \<open>compress\<close> or on the compressor.
\<close>

theorem bin2python_size_and_checksum:
  assumes "0 < columns"
  shows "map_option snd (bin2python bz2_compress infile columns prefix sep compress)
           = Some (length infile, md5_hexdigest infile)"
  by (simp add: bin2python_eq [OF assms])

theorem bin2python_size_and_checksum_witness:
  "(0::int) < 70 \<and>
   map_option snd (bin2python rle_compress ''AAB'' 70 ''    '' [LF] True) = Some (3, md5_hexdigest ''AAB'')"
  using bin2python_size_and_checksum [of 70 rle_compress "''AAB''" "''    ''" "[LF]" True]
  by (simp add: numeral_3_eq_3)

text \<open>
  Claim C1. Reading the framed body back gives the input: stripping prefixes, literal
  delimiters and separators, decoding base64 and, when \<open>compress\<close> holds, decompressing
  reproduces the bytes read, and their MD5 hex digest is the checksum returned. The
  decompressor is assumed to invert the compressor on this input.
\<close>

theorem bin2python_round_trip:
  assumes "0 < columns"
    and "compress \<longrightarrow> bz2_decompress (bz2_compress infile) = Some infile"
  shows "\<exists>body data_size data_md5 decoded.
           bin2python bz2_compress infile columns prefix sep compress = Some (body, data_size, data_md5)
           \<and> decode_body bz2_decompress prefix sep compress body = Some decoded
           \<and> decoded = infile
           \<and> md5_hexdigest decoded = data_md5"
proof -
  define data_b64 where "data_b64 = b2a_base64 (if compress then bz2_compress infile else infile)"
  define body where "body = (if data_b64 = [] then frame_line prefix []
     else join_bytes sep (map (frame_line prefix) (chunks (nat columns) data_b64)))"
  have ret: "bin2python bz2_compress infile columns prefix sep compress
               = Some (body, length infile, md5_hexdigest infile)"
    by (simp add: bin2python_eq [OF assms(1)] body_def data_b64_def)
  have unframed: "unframe prefix sep body = Some data_b64"
  proof (cases "data_b64 = []")
    case True
    then show ?thesis
      by (simp add: body_def unframe_line_last)
  next
    case False
    let ?segs = "chunks (nat columns) data_b64"
    have cat: "concat ?segs = data_b64"
      using assms(1) by (simp add: concat_chunks)
    have "?segs \<noteq> []"
      using False assms(1) by (simp add: chunks_eq_Nil)
    moreover have "\<forall>seg\<in>set ?segs. DQ \<notin> set seg"
    proof
      fix seg assume "seg \<in> set ?segs"
      then have "set seg \<subseteq> set (concat ?segs)" by auto
      then have "set seg \<subseteq> set data_b64" by (simp only: cat)
      moreover have "DQ \<notin> set data_b64"
        unfolding data_b64_def by (rule b2a_base64_no_quote)
      ultimately show "DQ \<notin> set seg" by blast
    qed
    ultimately have "unframe prefix sep (join_bytes sep (map (frame_line prefix) ?segs)) = Some (concat ?segs)"
      by (rule unframe_join)
    then show ?thesis
      using False by (simp add: body_def cat)
  qed
  have "decode_body bz2_decompress prefix sep compress body = Some infile"
    using assms(2) by (simp add: decode_body_def unframed data_b64_def a2b_b2a_base64)
  with ret show ?thesis by simp
qed

theorem bin2python_round_trip_witness:
  "(0::int) < 70 \<and> rle_decompress (rle_compress ''AAB'') = Some ''AAB''
    \<and>
   (\<exists>body data_size data_md5 decoded.
      bin2python rle_compress ''AAB'' 70 ''    '' [LF] True = Some (body, data_size, data_md5)
      \<and> decode_body rle_decompress ''    '' [LF] True body = Some decoded
      \<and> decoded = ''AAB''
      \<and> md5_hexdigest decoded = data_md5)"
  using bin2python_round_trip [of 70 True rle_decompress rle_compress "''AAB''" "''    ''" "[LF]"]
  by (simp add: rle_AAB_inv)

text \<open>
  Claim C4. For a non-empty input (and a compressor that returns no empty stream for it)
  the body is the base64 text cut into segments, each framed as
  \<open>prefix\<close> \<^verbatim>\<open>b"\<close> segment \<^verbatim>\<open>"\<close> and joined by \<open>sep\<close>, with no separator after the last line.
  The segments concatenate to the base64 text, all but the last have exactly \<open>columns\<close>
  characters, the last has between one and \<open>columns\<close>, and the text has no line break.
\<close>

theorem bin2python_framing:
  assumes "0 < columns" and "infile \<noteq> []" and "compress \<longrightarrow> bz2_compress infile \<noteq> []"
  shows "let data_b64 = b2a_base64 (if compress then bz2_compress infile else infile);
             segs = chunks (nat columns) data_b64
         in map_option fst (bin2python bz2_compress infile columns prefix sep compress)
              = Some (join_bytes sep (map (frame_line prefix) segs))
            \<and> segs \<noteq> [] \<and> concat segs = data_b64
            \<and> (\<forall>seg\<in>set (butlast segs). length seg = nat columns)
            \<and> 0 < length (last segs) \<and> length (last segs) \<le> nat columns
            \<and> LF \<notin> set data_b64 \<and> CR \<notin> set data_b64"
proof -
  define data_b64 where "data_b64 = b2a_base64 (if compress then bz2_compress infile else infile)"
  define segs where "segs = chunks (nat columns) data_b64"
  have ne: "data_b64 \<noteq> []"
    using assms(2,3) by (auto simp: data_b64_def b2a_base64_eq_Nil)
  have segs_ne: "segs \<noteq> []"
    using ne assms(1) by (simp add: segs_def chunks_eq_Nil)
  have body: "map_option fst (bin2python bz2_compress infile columns prefix sep compress)
                = Some (join_bytes sep (map (frame_line prefix) segs))"
    using ne by (simp add: bin2python_eq [OF assms(1)] data_b64_def [symmetric] segs_def)
  have cat: "concat segs = data_b64"
    using assms(1) by (simp add: segs_def concat_chunks)
  have full: "\<forall>seg\<in>set (butlast segs). length seg = nat columns"
    by (auto simp: segs_def dest: chunks_butlast_full)
  have "last segs \<in> set segs"
    using segs_ne by simp
  then have lst: "0 < length (last segs) \<and> length (last segs) \<le> nat columns"
    unfolding segs_def by (rule chunks_lengths)
  have nl: "LF \<notin> set data_b64 \<and> CR \<notin> set data_b64"
    unfolding data_b64_def by (rule b2a_base64_no_newline)
  show ?thesis
    unfolding Let_def data_b64_def [symmetric] segs_def [symmetric]
    using body segs_ne cat full lst nl by simp
qed

theorem bin2python_framing_witness:
  "(0::int) < 4 \<and> ''AAB'' \<noteq> [] \<and> rle_compress ''AAB'' \<noteq> [] \<and>
   map_option fst (bin2python rle_compress ''AAB'' 4 ''    '' [LF] True)
     = Some (''    b'' @ [DQ] @ ''AkEB'' @ [DQ] @ [LF] @ ''    b'' @ [DQ] @ ''Qg=='' @ [DQ])"
  using bin2python_framing [of 4 "''AAB''" True rle_compress "''    ''" "[LF]",
      unfolded Let_def if_True b64_rle_AAB]
  by (simp add: rle_AAB chunks_4_8 frame_line_def del: rle_compress.simps b2a_base64.simps)

text \<open>
  Claim C5, as amended. For the empty input with compression disabled the body is one
  line, the prefix followed by \<^verbatim>\<open>b""\<close>, for every \<open>columns\<close>, prefix and separator.
\<close>

theorem bin2python_empty_uncompressed:
  "bin2python bz2_compress [] columns prefix sep False
     = Some (prefix @ [CHR ''b'', DQ, DQ], 0, md5_hexdigest [])"
  by (simp add: bin2python_def bin2python_loop.simps)

text \<open>
  Claim C5 as stated fails under the default \<^verbatim>\<open>compress=True\<close>: bz2 turns the empty
  input into a 14-byte stream, so the body is one line holding its base64 text and not
  the empty literal.
\<close>

theorem bin2python_empty_compressed_counterexample:
  "map_option fst (bin2python bz2_compress_nil [] 70 ''    '' [LF] True)
     = Some (''    b'' @ [DQ] @ ''QlpoORdyRThQkAAAAAA='' @ [DQ])
   \<and> map_option fst (bin2python bz2_compress_nil [] 70 ''    '' [LF] True)
     \<noteq> Some (''    '' @ [CHR ''b'', DQ, DQ])"
proof -
  have "(0::int) < 70" by simp
  then show ?thesis
    by (simp add: bin2python_eq bz2_compress_nil_def b64_bz2_empty chunks_single frame_line_def)
qed

text \<open>
  Claim C6. For \<^verbatim>\<open>b"AB"\<close> without compression and with \<open>columns = 4\<close> the body is the one
  line \<open>prefix\<close> \<^verbatim>\<open>b"QUI="\<close>, the size is 2 and the checksum is the MD5 hex digest of
  \<^verbatim>\<open>b"AB"\<close>.
\<close>

theorem bin2python_AB_example:
  "bin2python bz2_compress ''AB'' 4 prefix sep False
     = Some (prefix @ [CHR ''b'', DQ] @ ''QUI='' @ [DQ], 2, md5_hexdigest ''AB'')
   \<and> md5_hexdigest ''AB'' = ''b86fc6b051f63d73de262d4c34e3a0a9''"
proof -
  have "(0::int) < 4" by simp
  then show ?thesis
    by (simp add: bin2python_eq b64_AB chunks_single frame_line_def md5_hexdigest_AB
          del: b2a_base64.simps)
qed

section \<open>The loop does not end when the offset cannot advance\<close>

lemma bin2python_loop_returns_only_forward:
  assumes "bin2python_loop data_b64 columns prefix sep offset pylines = Some y"
  shows "\<not> (columns \<le> 0 \<and> offset < int (length data_b64))"
proof (rule bin2python_loop.raw_induct
         [where P = "\<lambda>d c p s off acc y. \<not> (c \<le> 0 \<and> off < int (length d))", OF _ assms])
  fix loop :: "bytes \<Rightarrow> int \<Rightarrow> bytes \<Rightarrow> bytes \<Rightarrow> int \<Rightarrow> bytes \<Rightarrow> bytes option"
    and d c p s off acc y
  assume IH: "\<And>d c p s off acc y. loop d c p s off acc = Some y \<Longrightarrow> \<not> (c \<le> 0 \<and> off < int (length d))"
    and step: "(if off < int (length d) then
                  loop d c p s (off + c)
                    ((if acc \<noteq> [] then acc @ s else acc)
                     @ p @ [CHR ''b'', DQ] @ py_slice d off (off + c) @ [DQ])
                else Some acc) = Some y"
  show "\<not> (c \<le> 0 \<and> off < int (length d))"
  proof
    assume stuck: "c \<le> 0 \<and> off < int (length d)"
    with step have "loop d c p s (off + c)
                    ((if acc \<noteq> [] then acc @ s else acc)
                     @ p @ [CHR ''b'', DQ] @ py_slice d off (off + c) @ [DQ]) = Some y"
      by simp
    then have "\<not> (c \<le> 0 \<and> off + c < int (length d))"
      by (rule IH)
    with stuck show False by simp
  qed
qed

lemma bin2python_loop_diverges:
  "columns \<le> 0 \<Longrightarrow> offset < int (length data_b64) \<Longrightarrow>
     bin2python_loop data_b64 columns prefix sep offset pylines = None"
  using bin2python_loop_returns_only_forward [of data_b64 columns prefix sep offset pylines]
  by (cases "bin2python_loop data_b64 columns prefix sep offset pylines") auto

lemma bin2python_diverges:
  assumes "columns \<le> 0" and "b2a_base64 (if compress then bz2_compress infile else infile) \<noteq> []"
  shows "bin2python bz2_compress infile columns prefix sep compress = None"
proof -
  have "bin2python_loop (b2a_base64 (if compress then bz2_compress infile else infile))
          columns prefix sep 0 [] = None"
    using assms by (intro bin2python_loop_diverges) simp_all
  then show ?thesis
    by (simp add: bin2python_def Let_def)
qed

section \<open>Provenance: lemmas\<close>

lemma py_slice_strip:
  assumes "0 < n" and "n \<le> length d"
  shows "py_slice d 0 (- int n) = take (length d - n) d"
proof -
  have "py_bound (length d) 0 = 0"
    by (simp add: py_bound_def)
  moreover have "py_bound (length d) (- int n) = length d - n"
    using assms by (simp add: py_bound_def nat_diff_distrib' max_def)
  ultimately show ?thesis
    by (simp add: py_slice_def)
qed

lemma endswith_append: "endswith d suffix \<Longrightarrow> take (length d - length suffix) d @ suffix = d"
  by (metis append_take_drop_id endswith_def)

lemma hash_class_iff: "hash_class c \<longleftrightarrow> c \<in> set ''0123456789abcdefgh''"
proof -
  have eq: "\<And>d. (c = d) = ((of_char c :: nat) = of_char d)"
    by (simp add: of_char_eq_iff)
  have "c \<in> set ''0123456789abcdefgh'' \<longleftrightarrow>
          (of_char c :: nat) \<in> {48, 49, 50, 51, 52, 53, 54, 55, 56, 57, 97, 98, 99, 100, 101, 102, 103, 104}"
    by (simp only: list.set insert_iff empty_iff eq) simp
  also have "\<dots> \<longleftrightarrow> hash_class c"
    unfolding hash_class_def Let_def by (simp only: insert_iff empty_iff) (simp, arith)
  finally show ?thesis by simp
qed

text \<open>What the pattern of the script accepts: forty characters, each a digit or one of a to h.\<close>

lemma hash_fullmatch_iff:
  "hash_fullmatch s \<longleftrightarrow> length s = 40 \<and> (\<forall>c\<in>set s. c \<in> set ''0123456789abcdefgh'')"
  by (simp add: hash_fullmatch_def list_all_iff hash_class_iff)

lemma run_and_check_output_logs:
  "proc_log (snd (run_and_check_output e cmd_args cwd w)) = proc_log w @ [(cmd_args, cwd)]"
  by (simp add: run_and_check_output_def Let_def split: sum.splits prod.splits)

text \<open>Every call of \<open>get_git_info\<close> runs a subprocess, so it leaves a trace in the log.\<close>

lemma get_git_info_extends_log:
  "length (proc_log w) < length (proc_log (snd (get_git_info e repo_dir commit_ish dirty_suffix git_cmd w)))"
proof -
  let ?c1 = "[git_cmd, ''describe'', ''--always'', ''--abbrev'', ''--dirty='' @ dirty_suffix]"
  obtain r1 w1 where r1: "run_and_check_output e ?c1 repo_dir w = (r1, w1)"
    by (cases "run_and_check_output e ?c1 repo_dir w")
  have "proc_log (snd (run_and_check_output e ?c1 repo_dir w)) = proc_log w @ [(?c1, repo_dir)]"
    by (rule run_and_check_output_logs)
  then have "proc_log w1 = proc_log w @ [(?c1, repo_dir)]"
    by (simp only: r1 snd_conv)
  then have l1: "length (proc_log w) < length (proc_log w1)"
    by simp
  obtain r2 w2 where r2: "run_and_check_output e [git_cmd, ''rev-parse'', commit_ish] repo_dir w1 = (r2, w2)"
    by (cases "run_and_check_output e [git_cmd, ''rev-parse'', commit_ish] repo_dir w1")
  have "proc_log (snd (run_and_check_output e [git_cmd, ''rev-parse'', commit_ish] repo_dir w1))
          = proc_log w1 @ [([git_cmd, ''rev-parse'', commit_ish], repo_dir)]"
    by (rule run_and_check_output_logs)
  then have "proc_log w2 = proc_log w1 @ [([git_cmd, ''rev-parse'', commit_ish], repo_dir)]"
    by (simp only: r2 snd_conv)
  then have l2: "length (proc_log w1) < length (proc_log w2)"
    by simp
  show ?thesis
    unfolding get_git_info_def r1
    using l1 l2 by (auto simp: r2 Let_def split: sum.splits)
qed

lemma example_env_sel:
  "PROJECT_DIR (example_env run) = ''/w''"
  "script_file (example_env run) = ''/w/tools/embedsrv.py''"
  "sys_argv (example_env run) = [''embedsrv.py'']"
  "utcnow (example_env run) = ''2020-09-01T12:00:00+00:00''"
  "argparse (example_env run) = example_argparse"
  "subprocess_run (example_env run) = run"
  "bz2 (example_env run) = rle_compress"
  by (simp_all add: example_env_def)

lemma splitlines_Nil: "splitlines [] = []"
  by (simp add: splitlines_def)

lemma splitlines_describe_example: "map rstrip (splitlines (line_out ''v0.9-3-g1a2b3c4-dirty'')) = [''v0.9-3-g1a2b3c4-dirty'']"
  by code_simp

lemma splitlines_revparse_example: "map rstrip (splitlines (line_out hex40)) = [hex40]"
  by code_simp

lemma hash_fullmatch_examples: "hash_fullmatch hex40" "hash_fullmatch g40"
  by code_simp+

lemma lstrip_examples: "lstrip hex40 = hex40" "lstrip g40 = g40" "lstrip ''v0.9-3-g1a2b3c4-dirty'' = ''v0.9-3-g1a2b3c4-dirty''"
  by code_simp+

text \<open>
  Claim C3. The claim asks for lowercase hexadecimal, and the script's message speaks of a
  malformed git hash; the character class of the pattern runs from \<^verbatim>\<open>a\<close> to \<^verbatim>\<open>h\<close>, so
  a rev-parse answer of forty \<^verbatim>\<open>g\<close> passes the check and is stored as the hash.
\<close>

theorem get_git_info_accepts_g40:
  "fst (get_git_info (example_env (git_answers (line_out ''v1.0'') (line_out g40))) ''/w'' ''HEAD'' ''-dirty'' ''git''
         (example_world None None))
     = Inr \<lparr>describe = ''v1.0'', dirty = False, hash = g40\<rparr>"
  by code_simp

text \<open>
  Claim C7. When both git queries answer and the hash passes the check, \<open>get_git_info\<close>
  returns: for a descriptor that ends with the (non-empty) dirty suffix, \<open>dirty\<close> holds
  and the stored descriptor followed by the suffix is the descriptor; otherwise \<open>dirty\<close>
  does not hold and the descriptor is stored as it is.
\<close>

theorem get_git_info_dirty:
  assumes "dirty_suffix \<noteq> []"
    and "run_and_check_output e
           [git_cmd, ''describe'', ''--always'', ''--abbrev'', ''--dirty='' @ dirty_suffix] repo_dir w
         = (Inr res, w1)"
    and "first_line (stdout res) = Inr d"
    and "run_and_check_output e [git_cmd, ''rev-parse'', commit_ish] repo_dir w1 = (Inr res2, w2)"
    and "first_line (stdout res2) = Inr h"
    and "hash_fullmatch h"
  shows "\<exists>info. get_git_info e repo_dir commit_ish dirty_suffix git_cmd w = (Inr info, w2)
           \<and> hash info = h
           \<and> (if endswith d dirty_suffix
               then dirty info \<and> describe info @ dirty_suffix = d
               else \<not> dirty info \<and> describe info = d)"
proof (cases "endswith d dirty_suffix")
  case True
  then have "length dirty_suffix \<le> length d"
    by (simp add: endswith_def)
  then have "py_slice d 0 (- int (length dirty_suffix)) = take (length d - length dirty_suffix) d"
    using assms(1) by (simp add: py_slice_strip)
  then show ?thesis
    using assms True by (simp add: get_git_info_def endswith_append)
next
  case False
  then show ?thesis
    using assms by (simp add: get_git_info_def)
qed

theorem get_git_info_dirty_witness:
  "''-dirty'' \<noteq> []
   \<and> hash_fullmatch hex40
   \<and> endswith ''v0.9-3-g1a2b3c4-dirty'' ''-dirty''
   \<and> fst (get_git_info (example_env (git_answers (line_out ''v0.9-3-g1a2b3c4-dirty'') (line_out hex40)))
            ''/w'' ''HEAD'' ''-dirty'' ''git'' (example_world None None))
       = Inr \<lparr>describe = ''v0.9-3-g1a2b3c4'', dirty = True, hash = hex40\<rparr>"
proof -
  let ?e = "example_env (git_answers (line_out ''v0.9-3-g1a2b3c4-dirty'') (line_out hex40))"
  let ?w = "example_world None None"
  let ?c1 = "[''git'', ''describe'', ''--always'', ''--abbrev'', ''--dirty='' @ ''-dirty'']"
  let ?c2 = "[''git'', ''rev-parse'', ''HEAD'']"
  let ?w1 = "?w\<lparr>proc_log := proc_log ?w @ [(?c1, ''/w'')]\<rparr>"
  let ?w2 = "?w1\<lparr>proc_log := proc_log ?w1 @ [(?c2, ''/w'')]\<rparr>"
  have a: "''-dirty'' \<noteq> []" by simp
  have r1: "run_and_check_output ?e ?c1 ''/w'' ?w
              = (Inr \<lparr>stdout = [''v0.9-3-g1a2b3c4-dirty''], stderr = []\<rparr>, ?w1)"
    by (simp add: run_and_check_output_def example_env_sel git_answers_def splitlines_describe_example splitlines_Nil)
  have l1: "first_line (stdout \<lparr>stdout = [''v0.9-3-g1a2b3c4-dirty''], stderr = []\<rparr>)
              = Inr ''v0.9-3-g1a2b3c4-dirty''"
    by (simp add: first_line_def lstrip_examples)
  have r2: "run_and_check_output ?e ?c2 ''/w'' ?w1 = (Inr \<lparr>stdout = [hex40], stderr = []\<rparr>, ?w2)"
    by (simp add: run_and_check_output_def example_env_sel git_answers_def splitlines_revparse_example splitlines_Nil)
  have l2: "first_line (stdout \<lparr>stdout = [hex40], stderr = []\<rparr>) = Inr hex40"
    by (simp add: first_line_def lstrip_examples)
  have h: "hash_fullmatch hex40" by (rule hash_fullmatch_examples)
  have d: "endswith ''v0.9-3-g1a2b3c4-dirty'' ''-dirty''"
    by (simp add: endswith_def)
  from get_git_info_dirty [OF a r1 l1 r2 l2 h] d
  obtain info where g: "get_git_info ?e ''/w'' ''HEAD'' ''-dirty'' ''git'' ?w = (Inr info, ?w2)"
    and i: "hash info = hex40" "dirty info" "describe info @ ''-dirty'' = ''v0.9-3-g1a2b3c4'' @ ''-dirty''"
    by auto
  from i(3) have "describe info = ''v0.9-3-g1a2b3c4''"
    by (simp only: append_same_eq)
  with i have "info = \<lparr>describe = ''v0.9-3-g1a2b3c4'', dirty = True, hash = hex40\<rparr>"
    by simp
  with g a h d show ?thesis
    by simp
qed

section \<open>The driver: lemmas\<close>

lemma bin2python_default_total:
  "\<exists>textified. bin2python_default bz2_compress fin = Some (textified, length fin, md5_hexdigest fin)"
proof -
  have "(0::int) < 70" by simp
  then show ?thesis
    unfolding bin2python_default_def by (simp add: bin2python_eq)
qed

lemma write_bytes_at:
  "f out = Some (File r w c) \<Longrightarrow> write_bytes f out d out = Some (File r w (c @ d))"
  by (simp add: write_bytes_def)

lemma write_bytes_other:
  "p \<noteq> out \<Longrightarrow> write_bytes f out d p = f p"
  by (simp add: write_bytes_def split: option.splits node.splits)

lemma write_artifacts_appends:
  assumes "f out = Some (File r w c)"
  shows "\<exists>res f' more. write_artifacts e out xs f = Some (res, f') \<and> f' out = Some (File r w (c @ more))"
  using assms
proof (induction xs arbitrary: f c)
  case Nil
  then show ?case by simp
next
  case (Cons x xs)
  obtain name infile where x: "x = (name, infile)" by (cases x)
  show ?case
  proof (cases "open_rb f infile")
    case (Inl err)
    then show ?thesis using Cons.prems by (simp add: x)
  next
    case (Inr fin)
    obtain textified where b: "bin2python_default (bz2 e) fin = Some (textified, length fin, md5_hexdigest fin)"
      using bin2python_default_total by blast
    let ?f1 = "write_bytes (write_bytes (write_bytes f out
                 (artifact_header name infile (length fin) (md5_hexdigest fin))) out textified) out ('')'' @ [LF])"
    have "?f1 out = Some (File r w (c @ artifact_header name infile (length fin) (md5_hexdigest fin)
                                       @ textified @ '')'' @ [LF]))"
      using Cons.prems by (simp add: write_bytes_at)
    from Cons.IH [of ?f1, OF this] obtain res f' more where
      "write_artifacts e out xs ?f1 = Some (res, f')"
      "f' out = Some (File r w ((c @ artifact_header name infile (length fin) (md5_hexdigest fin)
                                       @ textified @ '')'' @ [LF]) @ more))"
      by blast
    then show ?thesis
      by (simp add: x Inr b)
  qed
qed

lemma write_artifacts_ok:
  assumes "f out = Some (File r w c)"
    and "\<forall>p\<in>set (map snd xs). p \<noteq> out \<and> (\<exists>w' c'. f p = Some (File True w' c'))"
  shows "\<exists>f'. write_artifacts e out xs f = Some (Inr (), f')"
  using assms
proof (induction xs arbitrary: f c)
  case Nil
  then show ?case by simp
next
  case (Cons x xs)
  obtain name infile where x: "x = (name, infile)" by (cases x)
  from Cons.prems(2) obtain w' fin where ne: "infile \<noteq> out" and rd: "f infile = Some (File True w' fin)"
    by (auto simp: x)
  have op: "open_rb f infile = Inr fin"
    by (simp add: open_rb_def rd)
  obtain textified where b: "bin2python_default (bz2 e) fin = Some (textified, length fin, md5_hexdigest fin)"
    using bin2python_default_total by blast
  let ?f1 = "write_bytes (write_bytes (write_bytes f out
               (artifact_header name infile (length fin) (md5_hexdigest fin))) out textified) out ('')'' @ [LF])"
  have at: "?f1 out = Some (File r w (c @ artifact_header name infile (length fin) (md5_hexdigest fin)
                                     @ textified @ '')'' @ [LF]))"
    using Cons.prems(1) by (simp add: write_bytes_at)
  have others: "\<forall>p\<in>set (map snd xs). p \<noteq> out \<and> (\<exists>w' c'. ?f1 p = Some (File True w' c'))"
    using Cons.prems(2) by (auto simp: write_bytes_other)
  from Cons.IH [of ?f1, OF at others] show ?case
    by (simp add: x op b)
qed

lemma write_artifacts_fails:
  assumes "f out = Some (File r w c)"
    and "\<forall>p\<in>set (map snd ok). p \<noteq> out \<and> (\<exists>w' c'. f p = Some (File True w' c'))"
    and "p \<noteq> out" and "open_rb f p = Inl err"
  shows "\<exists>f'. write_artifacts e out (ok @ (n, p) # rest) f = Some (Inl err, f')"
  using assms
proof (induction ok arbitrary: f c)
  case Nil
  then show ?case by simp
next
  case (Cons x xs)
  obtain name infile where x: "x = (name, infile)" by (cases x)
  from Cons.prems(2) obtain w' fin where ne: "infile \<noteq> out" and rd: "f infile = Some (File True w' fin)"
    by (auto simp: x)
  have op: "open_rb f infile = Inr fin"
    by (simp add: open_rb_def rd)
  obtain textified where b: "bin2python_default (bz2 e) fin = Some (textified, length fin, md5_hexdigest fin)"
    using bin2python_default_total by blast
  let ?f1 = "write_bytes (write_bytes (write_bytes f out
               (artifact_header name infile (length fin) (md5_hexdigest fin))) out textified) out ('')'' @ [LF])"
  have at: "?f1 out = Some (File r w (c @ artifact_header name infile (length fin) (md5_hexdigest fin)
                                     @ textified @ '')'' @ [LF]))"
    using Cons.prems(1) by (simp add: write_bytes_at)
  have others: "\<forall>p\<in>set (map snd xs). p \<noteq> out \<and> (\<exists>w' c'. ?f1 p = Some (File True w' c'))"
    using Cons.prems(2) by (auto simp: write_bytes_other)
  have "open_rb ?f1 p = Inl err"
    using Cons.prems(3,4) by (simp add: open_rb_def write_bytes_other)
  from Cons.IH [of ?f1, OF at others Cons.prems(3) this] show ?case
    by (simp add: x op b)
qed

lemma open_wb_opened:
  "open_wb f p = Inr f1 \<Longrightarrow> \<exists>r w. f1 p = Some (File r w [])"
  by (auto simp: open_wb_def split: option.splits node.splits if_splits)

lemma generate_python_script_total:
  "\<exists>res f'. generate_python_script e ctx f = Some (res, f')"
proof (cases "is_git_repo ctx")
  case None
  then show ?thesis by (simp add: generate_python_script_def)
next
  case (Some is_repo)
  let ?gc = "if \<not> is_repo then Inr ''None''
             else case git_info ctx of
                    None \<Rightarrow> Inl (AttributeError ''git_info'')
                  | Some info \<Rightarrow> Inr ([DQ] @ hash info @ [DQ] @ ''  # CAUTION: repo possibly dirty'')"
  show ?thesis
  proof (cases ?gc)
    case (Inl err)
    then show ?thesis using Some by (simp add: generate_python_script_def)
  next
    case (Inr git_commit)
    show ?thesis
    proof (cases "open_wb f (outfile ctx)")
      case (Inl err)
      then show ?thesis using Some Inr by (simp add: generate_python_script_def)
    next
      case opened: (Inr f1)
      then obtain r w where "f1 (outfile ctx) = Some (File r w [])"
        using open_wb_opened by blast
      then have "write_bytes f1 (outfile ctx) (document_header e git_commit) (outfile ctx)
                   = Some (File r w ([] @ document_header e git_commit))"
        by (rule write_bytes_at)
      from write_artifacts_appends
             [where f = "write_bytes f1 (outfile ctx) (document_header e git_commit)", OF this,
              of e "INPUT_FILES e"]
      show ?thesis using Some Inr opened by (auto simp: generate_python_script_def)
    qed
  qed
qed

lemma generate_python_script_unopened:
  assumes "is_git_repo ctx = Some False" and "open_wb f (outfile ctx) = Inl err"
  shows "generate_python_script e ctx f = Some (Inl err, f)"
  using assms by (simp add: generate_python_script_def)

lemma generate_python_script_opened:
  assumes "is_git_repo ctx = Some False"
    and "open_wb f (outfile ctx) = Inr f1"
  shows "\<exists>res f' more.
           generate_python_script e ctx f = Some (res, f')
           \<and> file_content f' (outfile ctx) = Some (document_header e ''None'' @ more)"
proof -
  obtain r w where "f1 (outfile ctx) = Some (File r w [])"
    using open_wb_opened [OF assms(2)] by blast
  then have "write_bytes f1 (outfile ctx) (document_header e ''None'') (outfile ctx)
               = Some (File r w ([] @ document_header e ''None''))"
    by (rule write_bytes_at)
  from write_artifacts_appends
         [where f = "write_bytes f1 (outfile ctx) (document_header e ''None'')", OF this,
          of e "INPUT_FILES e"]
  obtain res f' more where
    w: "write_artifacts e (outfile ctx) (INPUT_FILES e)
          (write_bytes f1 (outfile ctx) (document_header e ''None'')) = Some (res, f')"
    and c: "f' (outfile ctx) = Some (File r w (([] @ document_header e ''None'') @ more))"
    by blast
  have "generate_python_script e ctx f = Some (res, f')"
    using assms w by (simp add: generate_python_script_def)
  moreover have "file_content f' (outfile ctx) = Some (document_header e ''None'' @ more)"
    using c by (simp add: file_content_def)
  ultimately show ?thesis by blast
qed

lemma document_header_None:
  "document_header e ''None'' = preamble e @ ''GIT_COMMIT = None'' @ [LF]"
proof -
  have "''GIT_COMMIT = '' @ ''None'' @ [LF] = ''GIT_COMMIT = None'' @ [LF]"
    by simp
  then show ?thesis
    unfolding document_header_def preamble_def by (simp only: append_assoc)
qed

lemma parse_args_Inr:
  "parse_args e args = Inr ctx \<Longrightarrow>
     ctx = \<lparr>ignoregit = True, repodir = PROJECT_DIR e, outfile = OUTPUT_SCRIPT e,
            is_git_repo = None, git_info = None\<rparr>"
  by (auto simp: parse_args_def split: sum.splits)

lemma check_dirs_and_files_Inr:
  assumes "check_dirs_and_files e ctx f = Inr ctx'" and "ignoregit ctx"
  shows "ctx' = ctx\<lparr>is_git_repo := Some False\<rparr>"
    and "list_all (isfile f) (map snd (INPUT_FILES e))"
    and "isdir f (dirname (OUTPUT_SCRIPT e))"
  using assms by (auto simp: check_dirs_and_files_def die_def split: if_splits)

lemma check_dirs_and_files_missing:
  assumes "\<exists>file\<in>set (map snd (INPUT_FILES e)). \<not> isfile f file"
  shows "\<exists>err. check_dirs_and_files e ctx f = Inl err"
proof -
  from assms have "\<not> list_all (isfile f) (map snd (INPUT_FILES e))"
    by (auto simp: list_all_iff)
  then show ?thesis
    by (auto simp: check_dirs_and_files_def die_def split: sum.splits)
qed

lemma main_parse_error:
  "parse_args e (main_args e args) = Inl err \<Longrightarrow> main e args w = Some (Inl err, w)"
  by (simp add: main_def main_args_def)

lemma main_check_error:
  "parse_args e (main_args e args) = Inr ctx \<Longrightarrow> check_dirs_and_files e ctx (fs w) = Inl err \<Longrightarrow>
     main e args w = Some (Inl err, w)"
  by (simp add: main_def main_args_def)

lemma main_generate:
  assumes "parse_args e (main_args e args) = Inr ctx"
    and "check_dirs_and_files e ctx (fs w) = Inr ctx'"
    and "generate_python_script e ctx' (fs w) = Some (res, f')"
  shows "main e args w = Some (case res of Inl err \<Rightarrow> Inl err | Inr u \<Rightarrow> Inr 0, w\<lparr>fs := f'\<rparr>)"
proof -
  have ig: "ignoregit ctx"
    using parse_args_Inr [OF assms(1)] by simp
  have "is_git_repo ctx' = Some False"
    using check_dirs_and_files_Inr(1) [OF assms(2) ig] by simp
  then show ?thesis
    using assms by (simp add: main_def main_args_def split: sum.splits)
qed

subsection \<open>The example world, evaluated\<close>

lemma OUTPUT_SCRIPT_example: "OUTPUT_SCRIPT (example_env run) = ''/w/cli/rpc2socks/embexe_data.py''"
  by (simp add: OUTPUT_SCRIPT_def example_env_sel path_join_def path_join2_def)

lemma INPUT_FILES_example:
  "INPUT_FILES (example_env run) =
     [(''EXE32CON'', ''/w/svc/_bin/rpc2socks32con.exe''),
      (''EXE64CON'', ''/w/svc/_bin/rpc2socks64con.exe''),
      (''EXE32SVC'', ''/w/svc/_bin/rpc2socks32svc.exe''),
      (''EXE64SVC'', ''/w/svc/_bin/rpc2socks64svc.exe'')]"
  by (simp add: INPUT_FILES_def example_env_sel path_join_def path_join2_def)

lemma dirname_OUTPUT_example: "dirname ''/w/cli/rpc2socks/embexe_data.py'' = ''/w/cli/rpc2socks''"
  by (simp add: dirname_def path_head_def rstrip_char_def)

lemma main_args_example: "main_args (example_env run) None = []"
  by (simp add: main_args_def example_env_sel)

lemma parse_args_example:
  "parse_args (example_env run) [] =
     Inr \<lparr>ignoregit = True, repodir = ''/w'', outfile = ''/w/cli/rpc2socks/embexe_data.py'',
          is_git_repo = None, git_info = None\<rparr>"
  by (simp add: parse_args_def OUTPUT_SCRIPT_example example_env_sel example_argparse_def)

lemma check_dirs_and_files_example:
  "check_dirs_and_files (example_env run)
     \<lparr>ignoregit = True, repodir = ''/w'', outfile = ''/w/cli/rpc2socks/embexe_data.py'',
          is_git_repo = None, git_info = None\<rparr> (example_fs (Some (File rd wr c)) out)
   = Inr \<lparr>ignoregit = True, repodir = ''/w'', outfile = ''/w/cli/rpc2socks/embexe_data.py'',
          is_git_repo = Some False, git_info = None\<rparr>"
  by (simp add: check_dirs_and_files_def OUTPUT_SCRIPT_example INPUT_FILES_example
        dirname_OUTPUT_example example_env_sel example_fs_def isdir_def isfile_def)

lemma open_wb_example_new:
  "open_wb (example_fs third None) ''/w/cli/rpc2socks/embexe_data.py''
     = Inr ((example_fs third None)(''/w/cli/rpc2socks/embexe_data.py'' \<mapsto> File True True []))"
  by (simp add: open_wb_def dirname_OUTPUT_example) (simp add: example_fs_def isdir_def)

lemma open_wb_example_old:
  "open_wb (example_fs third (Some (File r True c))) ''/w/cli/rpc2socks/embexe_data.py''
     = Inr ((example_fs third (Some (File r True c)))(''/w/cli/rpc2socks/embexe_data.py'' \<mapsto> File r True []))"
  by (simp add: open_wb_def example_fs_def)

lemma generate_python_script_example_ok:
  "\<exists>f'. generate_python_script (example_env run) ctx_checked
          (example_fs (Some (File True True ''B'')) None) = Some (Inr (), f')"
proof -
  let ?out = "''/w/cli/rpc2socks/embexe_data.py''"
  let ?f = "example_fs (Some (File True True ''B'')) None"
  let ?f2 = "write_bytes (?f(?out \<mapsto> File True True [])) ?out (document_header (example_env run) ''None'')"
  have at: "?f2 ?out = Some (File True True ([] @ document_header (example_env run) ''None''))"
    by (rule write_bytes_at) simp
  have inputs: "\<forall>p\<in>set (map snd (INPUT_FILES (example_env run))).
                  p \<noteq> ?out \<and> (\<exists>w' c'. ?f2 p = Some (File True w' c'))"
    by (auto simp: INPUT_FILES_example write_bytes_other example_fs_def)
  from write_artifacts_ok [of ?f2, OF at inputs, of "example_env run"]
  show ?thesis
    by (simp add: generate_python_script_def open_wb_example_new)
qed

lemma main_example_ok:
  "\<exists>w'. main (example_env run) None (example_world (Some (File True True ''B'')) None) = Some (Inr 0, w')"
proof -
  obtain f' where g: "generate_python_script (example_env run) ctx_checked
          (fs (example_world (Some (File True True ''B'')) None)) = Some (Inr (), f')"
    using generate_python_script_example_ok [of run] by (auto simp: example_world_def)
  have p: "parse_args (example_env run) (main_args (example_env run) None) =
             Inr \<lparr>ignoregit = True, repodir = ''/w'', outfile = ''/w/cli/rpc2socks/embexe_data.py'',
                  is_git_repo = None, git_info = None\<rparr>"
    by (simp only: main_args_example parse_args_example)
  have c: "check_dirs_and_files (example_env run)
             \<lparr>ignoregit = True, repodir = ''/w'', outfile = ''/w/cli/rpc2socks/embexe_data.py'',
                  is_git_repo = None, git_info = None\<rparr>
             (fs (example_world (Some (File True True ''B'')) None)) = Inr ctx_checked"
    by (simp add: example_world_def check_dirs_and_files_example)
  from main_generate [OF p c g] show ?thesis
    by simp
qed

subsection \<open>The claims about the generated document\<close>

text \<open>
  Claim C8. When \<open>is_git_repo\<close> is false and the output file can be opened, the document
  written starts with the preamble followed by the line \<^verbatim>\<open>GIT_COMMIT = None\<close>: the
  revision field is present and holds the literal \<^verbatim>\<open>None\<close>, whatever happens to the
  artifacts after it.
\<close>

theorem generate_python_script_revision_none:
  assumes "is_git_repo ctx = Some False"
    and "open_wb f (outfile ctx) = Inr f1"
  shows "\<exists>res f' rest.
           generate_python_script e ctx f = Some (res, f')
           \<and> file_content f' (outfile ctx) = Some (preamble e @ ''GIT_COMMIT = None'' @ [LF] @ rest)"
proof -
  from generate_python_script_opened [OF assms, of e]
  obtain res f' more where
    g: "generate_python_script e ctx f = Some (res, f')"
    and c: "file_content f' (outfile ctx) = Some (document_header e ''None'' @ more)"
    by blast
  have "file_content f' (outfile ctx) = Some (preamble e @ ''GIT_COMMIT = None'' @ [LF] @ more)"
    using c by (simp only: document_header_None append_assoc)
  with g show ?thesis by blast
qed

theorem generate_python_script_revision_none_witness:
  "is_git_repo ctx_checked = Some False
   \<and> open_wb (example_fs (Some (File True True ''B'')) None) (outfile ctx_checked)
       = Inr ((example_fs (Some (File True True ''B'')) None)
                (''/w/cli/rpc2socks/embexe_data.py'' \<mapsto> File True True []))
   \<and> (\<exists>res f' rest.
         generate_python_script (example_env (git_answers [] [])) ctx_checked
           (example_fs (Some (File True True ''B'')) None) = Some (res, f')
         \<and> file_content f' (outfile ctx_checked)
             = Some (preamble (example_env (git_answers [] [])) @ ''GIT_COMMIT = None'' @ [LF] @ rest))"
proof -
  have a: "is_git_repo ctx_checked = Some False" by simp
  have b: "open_wb (example_fs (Some (File True True ''B'')) None) (outfile ctx_checked)
       = Inr ((example_fs (Some (File True True ''B'')) None)
                (''/w/cli/rpc2socks/embexe_data.py'' \<mapsto> File True True []))"
    by (simp add: open_wb_example_new)
  from generate_python_script_revision_none [OF a b, of "example_env (git_answers [] [])"] a b
  show ?thesis by blast
qed

text \<open>
  Claim C9, as amended. If an input artifact is not a regular file when the run starts,
  the run ends with an error and the world is as it was: the output path has not been
  opened.
\<close>

theorem main_missing_input_keeps_output:
  assumes "\<exists>file\<in>set (map snd (INPUT_FILES e)). \<not> isfile (fs w) file"
  shows "\<exists>err. main e args w = Some (Inl err, w)"
proof (cases "parse_args e (main_args e args)")
  case (Inl err)
  then show ?thesis
    by (simp add: main_parse_error)
next
  case (Inr ctx)
  obtain err where "check_dirs_and_files e ctx (fs w) = Inl err"
    using check_dirs_and_files_missing [OF assms] by blast
  with Inr show ?thesis
    by (simp add: main_check_error)
qed

theorem main_missing_input_keeps_output_witness:
  "\<not> isfile (fs (example_world None None)) ''/w/svc/_bin/rpc2socks32svc.exe''
   \<and> (\<exists>err. main (example_env (git_answers [] [])) None (example_world None None)
               = Some (Inl err, example_world None None))"
proof -
  have a: "\<not> isfile (fs (example_world None None)) ''/w/svc/_bin/rpc2socks32svc.exe''"
    by (simp add: example_world_def example_fs_def isfile_def)
  then have "\<exists>file\<in>set (map snd (INPUT_FILES (example_env (git_answers [] [])))).
               \<not> isfile (fs (example_world None None)) file"
    by (simp add: INPUT_FILES_example)
  from main_missing_input_keeps_output [OF this] a show ?thesis
    by blast
qed

text \<open>
  Claim C9 as stated fails: the output file is opened, and so truncated, before any input
  is read. With the third input a regular file the process may not read, the pre-flight
  check passes, the run ends with \<^verbatim>\<open>PermissionError\<close>, and the output file no longer
  holds what it held.
\<close>

theorem main_unreadable_input_counterexample:
  "file_content (fs (example_world (Some (File False True ''B'')) (Some (File True True ''OLD''))))
       ''/w/cli/rpc2socks/embexe_data.py'' = Some ''OLD''
   \<and> main_status (example_env (git_answers [] [])) None
         (example_world (Some (File False True ''B'')) (Some (File True True ''OLD'')))
       = Some (Inl (PermissionError ''/w/svc/_bin/rpc2socks32svc.exe''))
   \<and> main_output (example_env (git_answers [] [])) None
         (example_world (Some (File False True ''B'')) (Some (File True True ''OLD'')))
       \<noteq> Some ''OLD''"
proof -
  let ?e = "example_env (git_answers [] [])"
  let ?out = "''/w/cli/rpc2socks/embexe_data.py''"
  let ?f = "example_fs (Some (File False True ''B'')) (Some (File True True ''OLD''))"
  let ?w = "example_world (Some (File False True ''B'')) (Some (File True True ''OLD''))"
  let ?f2 = "write_bytes (?f(?out \<mapsto> File True True [])) ?out (document_header ?e ''None'')"
  have before: "file_content (fs ?w) ?out = Some ''OLD''"
    by (simp add: file_content_def example_world_def example_fs_def)
  have at: "?f2 ?out = Some (File True True ([] @ document_header ?e ''None''))"
    by (rule write_bytes_at) simp
  have ok2: "\<forall>p\<in>set (map snd [(''EXE32CON'', ''/w/svc/_bin/rpc2socks32con.exe''),
                                 (''EXE64CON'', ''/w/svc/_bin/rpc2socks64con.exe'')]).
               p \<noteq> ?out \<and> (\<exists>w' c'. ?f2 p = Some (File True w' c'))"
    by (auto simp: write_bytes_other example_fs_def)
  have denied: "open_rb ?f2 ''/w/svc/_bin/rpc2socks32svc.exe''
                  = Inl (PermissionError ''/w/svc/_bin/rpc2socks32svc.exe'')"
    by (simp add: open_rb_def write_bytes_other example_fs_def)
  have "\<exists>f'. write_artifacts ?e ?out
               ([(''EXE32CON'', ''/w/svc/_bin/rpc2socks32con.exe''),
                 (''EXE64CON'', ''/w/svc/_bin/rpc2socks64con.exe'')]
                @ (''EXE32SVC'', ''/w/svc/_bin/rpc2socks32svc.exe'')
                # [(''EXE64SVC'', ''/w/svc/_bin/rpc2socks64svc.exe'')]) ?f2
             = Some (Inl (PermissionError ''/w/svc/_bin/rpc2socks32svc.exe''), f')"
    by (rule write_artifacts_fails [of ?f2, OF at ok2 _ denied]) simp
  then obtain f' where fails: "write_artifacts ?e ?out (INPUT_FILES ?e) ?f2
             = Some (Inl (PermissionError ''/w/svc/_bin/rpc2socks32svc.exe''), f')"
    by (auto simp: INPUT_FILES_example)
  from write_artifacts_appends [of ?f2, OF at, of ?e "INPUT_FILES ?e"] fails
  obtain more where content: "f' ?out = Some (File True True (([] @ document_header ?e ''None'') @ more))"
    by auto
  have g: "generate_python_script ?e ctx_checked (fs ?w)
             = Some (Inl (PermissionError ''/w/svc/_bin/rpc2socks32svc.exe''), f')"
    using fails by (simp add: generate_python_script_def example_world_def open_wb_example_old)
  have p: "parse_args ?e (main_args ?e None) =
             Inr \<lparr>ignoregit = True, repodir = ''/w'', outfile = ''/w/cli/rpc2socks/embexe_data.py'',
                  is_git_repo = None, git_info = None\<rparr>"
    by (simp only: main_args_example parse_args_example)
  have c: "check_dirs_and_files ?e
             \<lparr>ignoregit = True, repodir = ''/w'', outfile = ''/w/cli/rpc2socks/embexe_data.py'',
                  is_git_repo = None, git_info = None\<rparr> (fs ?w) = Inr ctx_checked"
    by (simp add: example_world_def check_dirs_and_files_example)
  have m: "main ?e None ?w = Some (Inl (PermissionError ''/w/svc/_bin/rpc2socks32svc.exe''), ?w\<lparr>fs := f'\<rparr>)"
    using main_generate [OF p c g] by simp
  have status: "main_status ?e None ?w = Some (Inl (PermissionError ''/w/svc/_bin/rpc2socks32svc.exe''))"
    by (simp add: main_status_def m)
  have "main_output ?e None ?w = Some (document_header ?e ''None'' @ more)"
    by (simp add: main_output_def m OUTPUT_SCRIPT_example file_content_def content)
  then have after: "main_output ?e None ?w \<noteq> Some ''OLD''"
    by (simp add: document_header_def)
  from before status after show ?thesis
    by blast
qed

text \<open>
  Claim C10. Every run returns, and it leaves the subprocess log as it found it, so
  \<open>get_git_info\<close> was not called. A context that \<open>parse_args\<close> returns has \<open>ignoregit\<close>
  set, the pre-flight check then sets \<open>is_git_repo\<close> to false, and a run that ends with
  0 has written the line \<^verbatim>\<open>GIT_COMMIT = None\<close> after the preamble. The example is a
  project directory that holds \<^verbatim>\<open>.git\<close>.
\<close>

theorem main_ignores_git:
  "\<exists>res w'.
     main e args w = Some (res, w')
     \<and> proc_log w' = proc_log w
     \<and> (\<forall>ctx. parse_args e (main_args e args) = Inr ctx \<longrightarrow>
           ignoregit ctx
           \<and> (\<forall>ctx'. check_dirs_and_files e ctx (fs w) = Inr ctx' \<longrightarrow> is_git_repo ctx' = Some False))
     \<and> (res = Inr 0 \<longrightarrow>
           (\<exists>rest. file_content (fs w') (OUTPUT_SCRIPT e)
                     = Some (preamble e @ ''GIT_COMMIT = None'' @ [LF] @ rest)))"
proof (cases "parse_args e (main_args e args)")
  case (Inl err)
  then show ?thesis
    by (simp add: main_parse_error)
next
  case parsed: (Inr ctx)
  have ig: "ignoregit ctx" and out: "outfile ctx = OUTPUT_SCRIPT e"
    using parse_args_Inr [OF parsed] by simp_all
  show ?thesis
  proof (cases "check_dirs_and_files e ctx (fs w)")
    case (Inl err)
    then show ?thesis
      using parsed ig by (simp add: main_check_error)
  next
    case checked: (Inr ctx')
    have ctx': "ctx' = ctx\<lparr>is_git_repo := Some False\<rparr>"
      using check_dirs_and_files_Inr(1) [OF checked ig] .
    then have repo: "is_git_repo ctx' = Some False" and out': "outfile ctx' = OUTPUT_SCRIPT e"
      using out by simp_all
    show ?thesis
    proof (cases "open_wb (fs w) (outfile ctx')")
      case (Inl err)
      have "main e args w = Some (Inl err, w\<lparr>fs := fs w\<rparr>)"
        using main_generate [OF parsed checked generate_python_script_unopened [OF repo Inl]]
        by simp
      then show ?thesis
        using parsed checked ig repo by simp
    next
      case (Inr f1)
      from generate_python_script_opened [OF repo Inr, of e]
      obtain res f' more where
        g: "generate_python_script e ctx' (fs w) = Some (res, f')"
        and c: "file_content f' (OUTPUT_SCRIPT e) = Some (document_header e ''None'' @ more)"
        unfolding out' by blast
      have m: "main e args w = Some (case res of Inl err \<Rightarrow> Inl err | Inr u \<Rightarrow> Inr 0, w\<lparr>fs := f'\<rparr>)"
        by (rule main_generate [OF parsed checked g])
      have "file_content f' (OUTPUT_SCRIPT e) = Some (preamble e @ ''GIT_COMMIT = None'' @ [LF] @ more)"
        using c by (simp only: document_header_None append_assoc)
      then show ?thesis
        using m parsed checked ig repo by auto
    qed
  qed
qed

theorem main_ignores_git_witness:
  "isdir (fs (example_world (Some (File True True ''B'')) None)) ''/w/.git''
   \<and> parse_args (example_env (git_answers [] [])) (main_args (example_env (git_answers [] [])) None)
       = Inr \<lparr>ignoregit = True, repodir = ''/w'', outfile = ''/w/cli/rpc2socks/embexe_data.py'',
                  is_git_repo = None, git_info = None\<rparr>
   \<and> check_dirs_and_files (example_env (git_answers [] []))
             \<lparr>ignoregit = True, repodir = ''/w'', outfile = ''/w/cli/rpc2socks/embexe_data.py'',
                  is_git_repo = None, git_info = None\<rparr>
             (fs (example_world (Some (File True True ''B'')) None)) = Inr ctx_checked
   \<and> (\<exists>w'. main (example_env (git_answers [] [])) None (example_world (Some (File True True ''B'')) None)
              = Some (Inr 0, w')
            \<and> proc_log w' = []
            \<and> (\<exists>rest. file_content (fs w') ''/w/cli/rpc2socks/embexe_data.py''
                     = Some (preamble (example_env (git_answers [] [])) @ ''GIT_COMMIT = None'' @ [LF] @ rest)))"
proof -
  let ?e = "example_env (git_answers [] [])"
  let ?w = "example_world (Some (File True True ''B'')) None"
  have git: "isdir (fs ?w) ''/w/.git''"
    by (simp add: example_world_def example_fs_def isdir_def)
  have p: "parse_args ?e (main_args ?e None) =
             Inr \<lparr>ignoregit = True, repodir = ''/w'', outfile = ''/w/cli/rpc2socks/embexe_data.py'',
                  is_git_repo = None, git_info = None\<rparr>"
    by (simp only: main_args_example parse_args_example)
  have c: "check_dirs_and_files ?e
             \<lparr>ignoregit = True, repodir = ''/w'', outfile = ''/w/cli/rpc2socks/embexe_data.py'',
                  is_git_repo = None, git_info = None\<rparr> (fs ?w) = Inr ctx_checked"
    by (simp add: example_world_def check_dirs_and_files_example)
  obtain w1 where ok: "main ?e None ?w = Some (Inr 0, w1)"
    using main_example_ok by blast
  from main_ignores_git [of ?e None ?w] ok
  have "proc_log w1 = proc_log ?w"
    and "\<exists>rest. file_content (fs w1) (OUTPUT_SCRIPT ?e)
                  = Some (preamble ?e @ ''GIT_COMMIT = None'' @ [LF] @ rest)"
    by auto
  then have "proc_log w1 = []"
    and "\<exists>rest. file_content (fs w1) ''/w/cli/rpc2socks/embexe_data.py''
                  = Some (preamble ?e @ ''GIT_COMMIT = None'' @ [LF] @ rest)"
    by (simp_all add: example_world_def OUTPUT_SCRIPT_example)
  with git p c ok show ?thesis
    by blast
qed

end
